theory Spec2Isabelle
  imports Complex_Main
begin

section \<open>Mikoshi Sentinel: a shallow embedding of the verification pipeline\<close>

text \<open>
  The development follows the JavaScript sources file by file:
  \<^verbatim>\<open>lib/audit.js\<close>, \<^verbatim>\<open>lib/policies/rate-limit.js\<close>,
  \<^verbatim>\<open>lib/policies/system-commands.js\<close>, \<^verbatim>\<open>lib/action-parser.js\<close>,
  \<^verbatim>\<open>lib/intent-verifier.js\<close> and \<^verbatim>\<open>lib/sentinel.js\<close>.

  Conventions of the embedding.
  \<^item> JavaScript strings are \<open>string\<close>, over 8-bit characters; case mapping is the
    ASCII one.
  \<^item> JavaScript numbers that carry counts and millisecond timestamps are \<open>int\<close>.
    A confidence is a \<open>real\<close>, the value of the double. Where the code does arithmetic
    on confidences (the heuristic score), the decimal literals and every operation are
    rounded as IEEE doubles. The default 0.2 of a blocked verdict is only stored; it is
    written \<open>0.2\<close> and stands for the double of that literal.
  \<^item> An option stands for a property that may be absent (\<open>undefined\<close>).
  \<^item> A function that may throw returns a sum, \<open>Inl\<close> carrying the thrown value.
  \<^item> Mutable objects (the audit logger, the module-level call history, whatever a
    custom policy or the model function touches) are passed in and returned.
\<close>

subsection \<open>JavaScript values and strings\<close>

text \<open>
  The arguments of a tool call are an arbitrary JSON-like value. The pairs of an object
  are listed in the order in which \<^verbatim>\<open>Object.values\<close> enumerates them.
\<close>

datatype json =
    JNull
  | JBool bool
  | JNum real
  | JStr string
  | JArr "json list"
  | JObj "(string \<times> json) list"

text \<open>Truthiness, as the operator \<^verbatim>\<open>||\<close> tests it.\<close>

fun truthy :: "json \<Rightarrow> bool" where
  "truthy JNull = False"
| "truthy (JBool b) = b"
| "truthy (JNum n) = (n \<noteq> 0)"
| "truthy (JStr s) = (s \<noteq> [])"
| "truthy (JArr _) = True"
| "truthy (JObj _) = True"

text \<open>
  \<^verbatim>\<open>a || b || ... || d\<close> on string properties that may be absent: the first operand
  that is present and not the empty string, else the last operand \<open>d\<close>.
\<close>

fun or_str :: "string option list \<Rightarrow> string \<Rightarrow> string" where
  "or_str [] d = d"
| "or_str (None # xs) d = or_str xs d"
| "or_str (Some s # xs) d = (if s \<noteq> [] then s else or_str xs d)"

fun or_json :: "json option list \<Rightarrow> json \<Rightarrow> json" where
  "or_json [] d = d"
| "or_json (None # xs) d = or_json xs d"
| "or_json (Some v # xs) d = (if truthy v then v else or_json xs d)"

text \<open>An array is truthy even when empty, so \<^verbatim>\<open>||\<close> on arrays only skips absent ones.\<close>

fun or_list :: "'a list option list \<Rightarrow> 'a list \<Rightarrow> 'a list" where
  "or_list [] d = d"
| "or_list (None # xs) d = or_list xs d"
| "or_list (Some v # xs) d = v"

definition toLowerCase_char :: "char \<Rightarrow> char" where
  "toLowerCase_char c =
     (let n = (of_char c :: nat) in if 65 \<le> n \<and> n \<le> 90 then char_of (n + 32) else c)"

definition toLowerCase :: "string \<Rightarrow> string" where
  "toLowerCase s = map toLowerCase_char s"

text \<open>\<^verbatim>\<open>xs.join(sep)\<close>\<close>

fun join :: "string \<Rightarrow> string list \<Rightarrow> string" where
  "join sep [] = []"
| "join sep [x] = x"
| "join sep (x # y # ys) = x @ sep @ join sep (y # ys)"

text \<open>\<^verbatim>\<open>s.includes(t)\<close>: \<open>t\<close> occurs in \<open>s\<close> as a contiguous substring.\<close>

fun startsWith :: "string \<Rightarrow> string \<Rightarrow> bool" where
  "startsWith s [] = True"
| "startsWith [] (c # cs) = False"
| "startsWith (d # ds) (c # cs) = (d = c \<and> startsWith ds cs)"

fun includes_str :: "string \<Rightarrow> string \<Rightarrow> bool" where
  "includes_str [] t = (t = [])"
| "includes_str (c # cs) t = (startsWith (c # cs) t \<or> includes_str cs t)"

text \<open>Decimal rendering of a non-negative count, and of an integer, in a template string.\<close>

function show_nat :: "nat \<Rightarrow> string" where
  "show_nat n =
     (if n < 10 then [char_of (48 + n)]
      else show_nat (n div 10) @ [char_of (48 + n mod 10)])"
  by pat_completeness auto
termination
  by (relation "measure id") auto

definition show_int :: "int \<Rightarrow> string" where
  "show_int i = (if i < 0 then CHR ''-'' # show_nat (nat (- i)) else show_nat (nat i))"

text \<open>The classes \<^verbatim>\<open>\w\<close> and \<^verbatim>\<open>[a-z]\<close>.\<close>

definition is_word_char :: "char \<Rightarrow> bool" where
  "is_word_char c =
     (let n = (of_char c :: nat) in
      (48 \<le> n \<and> n \<le> 57) \<or> (65 \<le> n \<and> n \<le> 90) \<or> n = 95 \<or> (97 \<le> n \<and> n \<le> 122))"

definition is_az :: "char \<Rightarrow> bool" where
  "is_az c = (let n = (of_char c :: nat) in 97 \<le> n \<and> n \<le> 122)"

subsection \<open>Double-precision arithmetic\<close>

text \<open>
  A JavaScript number is an IEEE 754 double; every finite double is a rational number.
  \<open>double_of x\<close> is the double nearest to \<open>x\<close>, ties going to the even significand.
  \<open>to_binade\<close> scales \<open>\<bar>x\<bar>\<close> by powers of two into \<open>[2^52, 2^53)\<close> and keeps
  the unit in the last place; it stops after 1074 steps, where the unit of the subnormal
  numbers is reached. Numbers of magnitude \<open>2^1024\<close> and more, which overflow, do not
  occur here.
\<close>

definition round_even :: "real \<Rightarrow> int" where
  "round_even x =
     (let f = \<lfloor>x\<rfloor>; r = x - of_int f in
      if r < 1 / 2 then f
      else if r > 1 / 2 then f + 1
      else if even f then f else f + 1)"

fun to_binade :: "nat \<Rightarrow> real \<Rightarrow> real \<Rightarrow> real \<times> real" where
  "to_binade 0 m u = (m, u)"
| "to_binade (Suc n) m u =
     (if m \<ge> 2 ^ 53 then to_binade n (m / 2) (u * 2)
      else if m < 2 ^ 52 then to_binade n (m * 2) (u / 2)
      else (m, u))"

definition double_of :: "real \<Rightarrow> real" where
  "double_of x =
     (if x = 0 then 0
      else case to_binade 1074 \<bar>x\<bar> 1 of
             (m, u) \<Rightarrow> sgn x * of_int (round_even m) * u)"

text \<open>
  The operators \<^verbatim>\<open>+\<close>, \<^verbatim>\<open>*\<close> and \<^verbatim>\<open>/\<close> on doubles: the exact result, rounded.
  The only division of the code modelled here, in \<^verbatim>\<open>heuristicScore\<close>, has a divisor
  of at least 1.
\<close>

definition d_add :: "real \<Rightarrow> real \<Rightarrow> real" where
  "d_add x y = double_of (x + y)"

definition d_mul :: "real \<Rightarrow> real \<Rightarrow> real" where
  "d_mul x y = double_of (x * y)"

definition d_div :: "real \<Rightarrow> real \<Rightarrow> real" where
  "d_div x y = double_of (x / y)"

subsection \<open>lib/action-parser.js\<close>

record message =
  role :: string
  content :: "string option"

text \<open>
  The part of the caller's context bag that the modelled code reads: the rate-limit key
  and overrides, and the conversation.
\<close>

record rate_overrides =
  o_maxCallsPerMinute :: "int option"
  o_maxCallsPerSecond :: "int option"
  o_maxIdenticalCalls :: "int option"
  o_burstWindow :: "int option"
  o_burstMax :: "int option"

record "context" =
  sessionId :: "string option"
  userId :: "string option"
  rateLimits :: "rate_overrides option"
  conversationHistory :: "message list option"
  messages :: "message list option"

record raw_action =
  raw_tool :: "string option"
  raw_name :: "string option"
  raw_function :: "string option"
  raw_args :: "json option"
  raw_arguments :: "json option"
  raw_parameters :: "json option"
  raw_source :: "string option"

text \<open>
  Of the extracted metadata, the model keeps the flattened text and the leaf strings.
  The url, path and encoding sets are read by none of the functions embedded here.
\<close>

record metadata =
  fullText :: string
  allStrings :: "string list"

record action =
  type :: string
  tool :: string
  args :: json
  source :: string
  conversationContext :: "message list"
  metadata :: metadata

definition classifyAction :: "string \<Rightarrow> json \<Rightarrow> string" where
  "classifyAction tool_name arguments =
     (let toolLower = toLowerCase tool_name in
      if toolLower \<in> set [''exec'', ''shell'', ''bash'', ''terminal'', ''run'']
        then ''system_command''
      else if toolLower \<in> set [''read'', ''write'', ''edit'', ''delete'', ''mkdir'',
                                ''readFile'', ''writeFile'']
        then ''file_operation''
      else if toolLower \<in> set [''fetch'', ''http'', ''request'', ''curl'', ''web_fetch'',
                                ''web_search'']
        then ''network_request''
      else if toolLower \<in> set [''browser'', ''navigate'', ''open'']
        then ''browser_action''
      else ''tool_call'')"

text \<open>
  \<^verbatim>\<open>flattenArgs(obj, depth = 0)\<close>: all leaf strings, left to right, nothing from
  below depth 10.
\<close>

fun flattenArgs :: "json \<Rightarrow> nat \<Rightarrow> string list" where
  "flattenArgs (JStr s) depth = (if depth > 10 then [] else [s])"
| "flattenArgs (JArr items) depth =
     (if depth > 10 then []
      else concat (map (\<lambda>item. flattenArgs item (depth + 1)) items))"
| "flattenArgs (JObj props) depth =
     (if depth > 10 then []
      else concat (map (\<lambda>prop. flattenArgs (snd prop) (depth + 1)) props))"
| "flattenArgs JNull depth = []"
| "flattenArgs (JBool b) depth = []"
| "flattenArgs (JNum n) depth = []"

definition parseAction :: "raw_action \<Rightarrow> context \<Rightarrow> action" where
  "parseAction rawAction ctx =
     (let tool_name = or_str [raw_tool rawAction, raw_name rawAction, raw_function rawAction]
                        ''unknown'';
          arguments = or_json [raw_args rawAction, raw_arguments rawAction,
                               raw_parameters rawAction] (JObj []);
          src = or_str [raw_source rawAction] ''assistant'';
          conversation = or_list [conversationHistory ctx, messages ctx] [];
          strings = flattenArgs arguments 0
      in \<lparr> type = classifyAction tool_name arguments,
           tool = tool_name,
           args = arguments,
           source = src,
           conversationContext = conversation,
           metadata = \<lparr> fullText = join '' '' strings, allStrings = strings \<rparr> \<rparr>)"

subsection \<open>lib/policies/rate-limit.js\<close>

text \<open>What a policy evaluator returns: \<^verbatim>\<open>{ pass, reason, severity }\<close>.\<close>

record policy_result =
  pass :: bool
  reason :: string
  severity :: string

record call_record =
  timestamp :: int
  actionKey :: string

text \<open>The module-level \<^verbatim>\<open>callHistory\<close> map, from rate-limit key to call records.\<close>

type_synonym call_history = "string \<rightharpoonup> call_record list"

record limits =
  maxCallsPerMinute :: int
  maxCallsPerSecond :: int
  maxIdenticalCalls :: int
  burstWindow :: int
  burstMax :: int

definition DEFAULT_LIMITS :: limits where
  "DEFAULT_LIMITS =
     \<lparr> maxCallsPerMinute = 30, maxCallsPerSecond = 5, maxIdenticalCalls = 3,
       burstWindow = 1000, burstMax = 10 \<rparr>"

text \<open>\<^verbatim>\<open>{ ...DEFAULT_LIMITS, ...(context.rateLimits || {}) }\<close>\<close>

definition merge_limits :: "limits \<Rightarrow> rate_overrides option \<Rightarrow> limits" where
  "merge_limits d ov =
     (case ov of
        None \<Rightarrow> d
      | Some r \<Rightarrow>
          \<lparr> maxCallsPerMinute = (case o_maxCallsPerMinute r of None \<Rightarrow> maxCallsPerMinute d | Some v \<Rightarrow> v),
            maxCallsPerSecond = (case o_maxCallsPerSecond r of None \<Rightarrow> maxCallsPerSecond d | Some v \<Rightarrow> v),
            maxIdenticalCalls = (case o_maxIdenticalCalls r of None \<Rightarrow> maxIdenticalCalls d | Some v \<Rightarrow> v),
            burstWindow = (case o_burstWindow r of None \<Rightarrow> burstWindow d | Some v \<Rightarrow> v),
            burstMax = (case o_burstMax r of None \<Rightarrow> burstMax d | Some v \<Rightarrow> v) \<rparr>)"

text \<open>
  The cleaning loop
  \<^verbatim>\<open>while (history.length > 0 && now - history[0].timestamp > 60000) history.shift()\<close>
  removes records from the front only, and stops at the first one that is not old.
\<close>

fun shift_old :: "int \<Rightarrow> call_record list \<Rightarrow> call_record list" where
  "shift_old now [] = []"
| "shift_old now (h # hs) = (if now - timestamp h > 60000 then shift_old now hs else h # hs)"

definition rate_key :: "context \<Rightarrow> string" where
  "rate_key ctx = or_str [sessionId ctx, userId ctx] ''default''"

text \<open>
  \<^verbatim>\<open>rateLimit(action, context)\<close>. The reading \<open>now\<close> of \<^verbatim>\<open>Date.now()\<close> and the
  built-in \<^verbatim>\<open>JSON.stringify\<close> are arguments of the model; the call history is passed
  in and returned. The history array of the key is created when missing and cleaned in
  place before any check, so a rejected call also leaves the cleaned array behind.
\<close>

definition rateLimit ::
  "(json \<Rightarrow> string) \<Rightarrow> int \<Rightarrow> action \<Rightarrow> context \<Rightarrow> call_history
     \<Rightarrow> policy_result \<times> call_history" where
  "rateLimit stringify now act ctx callHistory =
     (let lim = merge_limits DEFAULT_LIMITS (rateLimits ctx);
          key = rate_key ctx;
          history = shift_old now (case callHistory key of None \<Rightarrow> [] | Some h \<Rightarrow> h);
          cleaned = callHistory (key \<mapsto> history);
          lastSecond = filter (\<lambda>h. now - timestamp h < 1000) history;
          fingerprint = tool act @ '':'' @ stringify (args act);
          recentIdentical =
            filter (\<lambda>h. actionKey h = fingerprint \<and> now - timestamp h < 10000) history;
          burst = filter (\<lambda>h. now - timestamp h < burstWindow lim) history
      in
      if int (length history) \<ge> maxCallsPerMinute lim then
        (\<lparr> pass = False,
           reason = ''Rate limit exceeded: '' @ show_nat (length history)
                    @ '' calls in last minute (max: '' @ show_int (maxCallsPerMinute lim) @ '')'',
           severity = ''high'' \<rparr>, cleaned)
      else if int (length lastSecond) \<ge> maxCallsPerSecond lim then
        (\<lparr> pass = False,
           reason = ''Rate limit exceeded: '' @ show_nat (length lastSecond)
                    @ '' calls in last second (max: '' @ show_int (maxCallsPerSecond lim) @ '')'',
           severity = ''high'' \<rparr>, cleaned)
      else if int (length recentIdentical) \<ge> maxIdenticalCalls lim then
        (\<lparr> pass = False,
           reason = ''Repeated identical action detected (''
                    @ show_nat (length recentIdentical + 1) @ '' times in 10s)'',
           severity = ''medium'' \<rparr>, cleaned)
      else if int (length burst) \<ge> burstMax lim then
        (\<lparr> pass = False,
           reason = ''Burst rate exceeded: '' @ show_nat (length burst)
                    @ '' calls in '' @ show_int (burstWindow lim) @ ''ms'',
           severity = ''high'' \<rparr>, cleaned)
      else
        (\<lparr> pass = True, reason = ''Within rate limits'', severity = ''none'' \<rparr>,
         callHistory (key \<mapsto> history @ [\<lparr> timestamp = now, actionKey = fingerprint \<rparr>])))"

text \<open>\<^verbatim>\<open>rateLimit.reset = () => callHistory.clear()\<close>\<close>

definition rateLimit_reset :: "call_history \<Rightarrow> call_history" where
  "rateLimit_reset callHistory = Map.empty"

subsection \<open>Regular expressions\<close>

text \<open>
  The pattern tables of the policies are JavaScript regular expressions, used through
  \<^verbatim>\<open>pattern.test(text)\<close>: is there a match anywhere in the text. The constructs that
  occur in the tables are characters and character classes, sequence, alternation,
  the greedy \<^verbatim>\<open>*\<close>, \<^verbatim>\<open>+\<close> and \<^verbatim>\<open>?\<close>, the word boundary \<^verbatim>\<open>\b\<close> and the end
  of input \<^verbatim>\<open>$\<close> (no pattern has the multiline flag).
\<close>

datatype rx =
    Sym "char \<Rightarrow> bool"
  | Eps
  | Seq rx rx
  | Alt rx rx
  | Star rx
  | Word_boundary
  | End_of_input

text \<open>
  A matcher state is the character just before the current position, if any, and the
  rest of the input. \<open>rx_after r st\<close> lists the states in which a match of \<open>r\<close> begun
  in \<open>st\<close> can end, in the order in which a backtracking matcher tries them. An
  iteration of \<^verbatim>\<open>*\<close> that consumes nothing is not repeated, so the number of iterations
  is bounded by the length of the rest.
\<close>

type_synonym rx_state = "char option \<times> string"

fun star_after :: "(rx_state \<Rightarrow> rx_state list) \<Rightarrow> nat \<Rightarrow> rx_state \<Rightarrow> rx_state list" where
  "star_after step 0 st = [st]"
| "star_after step (Suc n) st =
     concat (map (star_after step n)
               (filter (\<lambda>st'. length (snd st') < length (snd st)) (step st)))
     @ [st]"

definition at_word_boundary :: "rx_state \<Rightarrow> bool" where
  "at_word_boundary st =
     ((case fst st of None \<Rightarrow> False | Some c \<Rightarrow> is_word_char c)
      \<noteq> (case snd st of [] \<Rightarrow> False | c # cs \<Rightarrow> is_word_char c))"

primrec rx_after :: "rx \<Rightarrow> rx_state \<Rightarrow> rx_state list" where
  "rx_after (Sym P) st =
     (case snd st of [] \<Rightarrow> [] | c # cs \<Rightarrow> if P c then [(Some c, cs)] else [])"
| "rx_after Eps st = [st]"
| "rx_after (Seq r1 r2) st = concat (map (rx_after r2) (rx_after r1 st))"
| "rx_after (Alt r1 r2) st = rx_after r1 st @ rx_after r2 st"
| "rx_after (Star r) st = star_after (rx_after r) (length (snd st)) st"
| "rx_after Word_boundary st = (if at_word_boundary st then [st] else [])"
| "rx_after End_of_input st = (if snd st = [] then [st] else [])"

text \<open>\<^verbatim>\<open>pattern.test(text)\<close>: a match may start at any position, the end included.\<close>

fun rx_search :: "rx \<Rightarrow> char option \<Rightarrow> string \<Rightarrow> bool" where
  "rx_search r prev [] = (rx_after r (prev, []) \<noteq> [])"
| "rx_search r prev (c # cs) = (rx_after r (prev, c # cs) \<noteq> [] \<or> rx_search r (Some c) cs)"

definition rx_test :: "rx \<Rightarrow> string \<Rightarrow> bool" where
  "rx_test r text = rx_search r None text"

text \<open>
  Notation for the tables. With the flag \<^verbatim>\<open>i\<close> two characters match when their case
  mappings agree; all characters in the tables are ASCII.
\<close>

definition toUpperCase_char :: "char \<Rightarrow> char" where
  "toUpperCase_char c =
     (let n = (of_char c :: nat) in if 97 \<le> n \<and> n \<le> 122 then char_of (n - 32) else c)"

definition in_range :: "char \<Rightarrow> char \<Rightarrow> char \<Rightarrow> bool" where
  "in_range lo hi c = ((of_char lo :: nat) \<le> of_char c \<and> (of_char c :: nat) \<le> of_char hi)"

definition is_space :: "char \<Rightarrow> bool" where
  "is_space c = (let n = (of_char c :: nat) in (9 \<le> n \<and> n \<le> 13) \<or> n = 32 \<or> n = 160)"

definition rx_seqs :: "rx list \<Rightarrow> rx" where
  "rx_seqs rs = foldr Seq rs Eps"

definition rx_alts :: "rx list \<Rightarrow> rx" where
  "rx_alts rs = (case rs of [] \<Rightarrow> Eps | r # rest \<Rightarrow> foldl Alt r rest)"

definition rx_plus :: "rx \<Rightarrow> rx" where
  "rx_plus r = Seq r (Star r)"

definition rx_opt :: "rx \<Rightarrow> rx" where
  "rx_opt r = Alt r Eps"

definition rx_str :: "string \<Rightarrow> rx" where
  "rx_str s = rx_seqs (map (\<lambda>c. Sym (\<lambda>x. x = c)) s)"

definition rx_str_i :: "string \<Rightarrow> rx" where
  "rx_str_i s = rx_seqs (map (\<lambda>c. Sym (\<lambda>x. toLowerCase_char x = toLowerCase_char c)) s)"

text \<open>\<^verbatim>\<open>\s\<close>, and \<^verbatim>\<open>.\<close> (any character but a line terminator).\<close>

definition rx_space :: rx where
  "rx_space = Sym is_space"

definition rx_any :: rx where
  "rx_any = Sym (\<lambda>x. x \<noteq> CHR 0x0A \<and> x \<noteq> CHR 0x0D)"

text \<open>Classes: \<^verbatim>\<open>[abc]\<close> and \<^verbatim>\<open>[a-z]\<close>, plain and under the flag \<^verbatim>\<open>i\<close>.\<close>

definition rx_one_of :: "string \<Rightarrow> rx" where
  "rx_one_of s = Sym (\<lambda>x. x \<in> set s)"

definition rx_one_of_i :: "string \<Rightarrow> rx" where
  "rx_one_of_i s = Sym (\<lambda>x. toLowerCase_char x \<in> set (map toLowerCase_char s))"

definition rx_range :: "char \<Rightarrow> char \<Rightarrow> rx" where
  "rx_range lo hi = Sym (in_range lo hi)"

definition rx_range_i :: "char \<Rightarrow> char \<Rightarrow> rx" where
  "rx_range_i lo hi =
     Sym (\<lambda>x. in_range lo hi x \<or> in_range lo hi (toLowerCase_char x)
               \<or> in_range lo hi (toUpperCase_char x))"

text \<open>
  A pattern with the text that a template string prints for it, \<^verbatim>\<open>/source/flags\<close>;
  \<open>bs s\<close> is \<open>s\<close> with a backslash in front.
\<close>

record pattern =
  printed :: string
  regex :: rx

definition bs :: "string \<Rightarrow> string" where
  "bs s = CHR 0x5C # s"

subsection \<open>lib/policies/system-commands.js\<close>

definition DESTRUCTIVE_COMMANDS :: "pattern list" where
  "DESTRUCTIVE_COMMANDS =
     [ \<lparr> printed = ''/rm'' @ bs ''s+(-[a-z]*f[a-z]*'' @ bs ''s+)?(-[a-z]*r[a-z]*'' @
                   bs ''s+)?'' @ bs ''//i'',
         regex = rx_seqs [rx_str_i ''rm'', rx_plus rx_space, rx_opt (rx_seqs [rx_str ''-'',
                 Star (rx_range_i (CHR ''a'') (CHR ''z'')), rx_str_i ''f'',
                 Star (rx_range_i (CHR ''a'') (CHR ''z'')), rx_plus rx_space]),
                 rx_opt (rx_seqs [rx_str ''-'', Star (rx_range_i (CHR ''a'') (CHR ''z'')),
                 rx_str_i ''r'', Star (rx_range_i (CHR ''a'') (CHR ''z'')),
                 rx_plus rx_space]), rx_str ''/''] \<rparr>,
       \<lparr> printed = ''/rm'' @ bs ''s+(-[a-z]*r[a-z]*'' @ bs ''s+)?(-[a-z]*f[a-z]*'' @
                   bs ''s+)?'' @ bs ''//i'',
         regex = rx_seqs [rx_str_i ''rm'', rx_plus rx_space, rx_opt (rx_seqs [rx_str ''-'',
                 Star (rx_range_i (CHR ''a'') (CHR ''z'')), rx_str_i ''r'',
                 Star (rx_range_i (CHR ''a'') (CHR ''z'')), rx_plus rx_space]),
                 rx_opt (rx_seqs [rx_str ''-'', Star (rx_range_i (CHR ''a'') (CHR ''z'')),
                 rx_str_i ''f'', Star (rx_range_i (CHR ''a'') (CHR ''z'')),
                 rx_plus rx_space]), rx_str ''/''] \<rparr>,
       \<lparr> printed = ''/rm'' @ bs ''s+-rf'' @ bs ''s/i'',
         regex = rx_seqs [rx_str_i ''rm'', rx_plus rx_space, rx_str_i ''-rf'', rx_space] \<rparr>,
       \<lparr> printed = ''/mkfs'' @ bs ''./i'',
         regex = rx_str_i ''mkfs.'' \<rparr>,
       \<lparr> printed = ''/dd'' @ bs ''s+if=.*of='' @ bs ''/dev'' @ bs ''//i'',
         regex = rx_seqs [rx_str_i ''dd'', rx_plus rx_space, rx_str_i ''if='', Star rx_any,
                 rx_str_i ''of=/dev/''] \<rparr>,
       \<lparr> printed = ''/shutdown/i'',
         regex = rx_str_i ''shutdown'' \<rparr>,
       \<lparr> printed = ''/reboot/i'',
         regex = rx_str_i ''reboot'' \<rparr>,
       \<lparr> printed = ''/halt'' @ bs ''b/i'',
         regex = rx_seqs [rx_str_i ''halt'', Word_boundary] \<rparr>,
       \<lparr> printed = ''/poweroff/i'',
         regex = rx_str_i ''poweroff'' \<rparr>,
       \<lparr> printed = ''/init'' @ bs ''s+[06]/i'',
         regex = rx_seqs [rx_str_i ''init'', rx_plus rx_space, rx_one_of ''06''] \<rparr>,
       \<lparr> printed = ''/systemctl'' @ bs ''s+(poweroff|reboot|halt)/i'',
         regex = rx_seqs [rx_str_i ''systemctl'', rx_plus rx_space,
                 rx_alts [rx_str_i ''poweroff'', rx_str_i ''reboot'', rx_str_i ''halt'']] \<rparr> ]"

definition PERMISSION_COMMANDS :: "pattern list" where
  "PERMISSION_COMMANDS =
     [ \<lparr> printed = ''/chmod'' @ bs ''s+777/'',
         regex = rx_seqs [rx_str ''chmod'', rx_plus rx_space, rx_str ''777''] \<rparr>,
       \<lparr> printed = ''/chmod'' @ bs ''s+666/'',
         regex = rx_seqs [rx_str ''chmod'', rx_plus rx_space, rx_str ''666''] \<rparr>,
       \<lparr> printed = ''/chmod'' @ bs ''s+[0-7]*s/i'',
         regex = rx_seqs [rx_str_i ''chmod'', rx_plus rx_space,
                 Star (rx_range (CHR ''0'') (CHR ''7'')), rx_str_i ''s''] \<rparr>,
       \<lparr> printed = ''/chmod'' @ bs ''s+a'' @ bs ''+[rwx]/i'',
         regex = rx_seqs [rx_str_i ''chmod'', rx_plus rx_space, rx_str_i ''a+'',
                 rx_one_of_i ''rwx''] \<rparr>,
       \<lparr> printed = ''/chattr'' @ bs ''s/i'',
         regex = rx_seqs [rx_str_i ''chattr'', rx_space] \<rparr> ]"

definition PIPE_EXECUTION :: "pattern list" where
  "PIPE_EXECUTION =
     [ \<lparr> printed = ''/curl'' @ bs ''s.*'' @ bs ''|'' @ bs ''s*(ba)?sh/i'',
         regex = rx_seqs [rx_str_i ''curl'', rx_space, Star rx_any, rx_str ''|'',
                 Star rx_space, rx_opt (rx_str_i ''ba''), rx_str_i ''sh''] \<rparr>,
       \<lparr> printed = ''/wget'' @ bs ''s.*'' @ bs ''|'' @ bs ''s*(ba)?sh/i'',
         regex = rx_seqs [rx_str_i ''wget'', rx_space, Star rx_any, rx_str ''|'',
                 Star rx_space, rx_opt (rx_str_i ''ba''), rx_str_i ''sh''] \<rparr>,
       \<lparr> printed = ''/curl'' @ bs ''s.*'' @ bs ''|'' @ bs ''s*python/i'',
         regex = rx_seqs [rx_str_i ''curl'', rx_space, Star rx_any, rx_str ''|'',
                 Star rx_space, rx_str_i ''python''] \<rparr>,
       \<lparr> printed = ''/curl'' @ bs ''s.*'' @ bs ''|'' @ bs ''s*perl/i'',
         regex = rx_seqs [rx_str_i ''curl'', rx_space, Star rx_any, rx_str ''|'',
                 Star rx_space, rx_str_i ''perl''] \<rparr>,
       \<lparr> printed = ''/curl'' @ bs ''s.*'' @ bs ''|'' @ bs ''s*ruby/i'',
         regex = rx_seqs [rx_str_i ''curl'', rx_space, Star rx_any, rx_str ''|'',
                 Star rx_space, rx_str_i ''ruby''] \<rparr>,
       \<lparr> printed = ''/wget'' @ bs ''s.*-O'' @ bs ''s*-'' @ bs ''s*'' @ bs ''|/i'',
         regex = rx_seqs [rx_str_i ''wget'', rx_space, Star rx_any, rx_str_i ''-O'',
                 Star rx_space, rx_str ''-'', Star rx_space, rx_str ''|''] \<rparr>,
       \<lparr> printed = ''/'' @ bs ''|'' @ bs ''s*bash'' @ bs ''s*$/i'',
         regex = rx_seqs [rx_str ''|'', Star rx_space, rx_str_i ''bash'', Star rx_space,
                 End_of_input] \<rparr>,
       \<lparr> printed = ''/'' @ bs ''|'' @ bs ''s*sh'' @ bs ''s*$/i'',
         regex = rx_seqs [rx_str ''|'', Star rx_space, rx_str_i ''sh'', Star rx_space,
                 End_of_input] \<rparr> ]"

definition REVERSE_SHELL :: "pattern list" where
  "REVERSE_SHELL =
     [ \<lparr> printed = ''/'' @ bs ''/dev'' @ bs ''/tcp'' @ bs ''//i'',
         regex = rx_str_i ''/dev/tcp/'' \<rparr>,
       \<lparr> printed = ''/bash'' @ bs ''s+-i'' @ bs ''s+>&/i'',
         regex = rx_seqs [rx_str_i ''bash'', rx_plus rx_space, rx_str_i ''-i'',
                 rx_plus rx_space, rx_str ''>&''] \<rparr>,
       \<lparr> printed = ''/nc'' @ bs ''s+.*-e'' @ bs ''s+'' @ bs ''/bin/i'',
         regex = rx_seqs [rx_str_i ''nc'', rx_plus rx_space, Star rx_any, rx_str_i ''-e'',
                 rx_plus rx_space, rx_str_i ''/bin''] \<rparr>,
       \<lparr> printed = ''/ncat'' @ bs ''s+.*-e'' @ bs ''s+'' @ bs ''/bin/i'',
         regex = rx_seqs [rx_str_i ''ncat'', rx_plus rx_space, Star rx_any,
                 rx_str_i ''-e'', rx_plus rx_space, rx_str_i ''/bin''] \<rparr>,
       \<lparr> printed = ''/python.*socket.*connect/i'',
         regex = rx_seqs [rx_str_i ''python'', Star rx_any, rx_str_i ''socket'',
                 Star rx_any, rx_str_i ''connect''] \<rparr>,
       \<lparr> printed = ''/perl.*socket.*INET/i'',
         regex = rx_seqs [rx_str_i ''perl'', Star rx_any, rx_str_i ''socket'',
                 Star rx_any, rx_str_i ''INET''] \<rparr>,
       \<lparr> printed = ''/ruby.*TCPSocket/i'',
         regex = rx_seqs [rx_str_i ''ruby'', Star rx_any, rx_str_i ''TCPSocket''] \<rparr>,
       \<lparr> printed = ''/php.*fsockopen/i'',
         regex = rx_seqs [rx_str_i ''php'', Star rx_any, rx_str_i ''fsockopen''] \<rparr>,
       \<lparr> printed = ''/mkfifo/i'',
         regex = rx_str_i ''mkfifo'' \<rparr> ]"

definition FORK_BOMB :: "pattern list" where
  "FORK_BOMB =
     [ \<lparr> printed = ''/:'' @ bs ''('' @ bs '')'' @ bs ''{'' @ bs ''s*:'' @ bs ''|:&'' @
                   bs ''s*'' @ bs ''};:/'',
         regex = rx_seqs [rx_str '':(){'', Star rx_space, rx_str '':|:&'',
                 Star rx_space, rx_str ''};:''] \<rparr>,
       \<lparr> printed = ''/'' @ bs ''.'' @ bs ''/'' @ bs ''s*&'' @ bs ''s*'' @ bs ''.'' @ bs ''//'',
         regex = rx_seqs [rx_str ''./'', Star rx_space, rx_str ''&'', Star rx_space,
                 rx_str ''./''] \<rparr>,
       \<lparr> printed = ''/while'' @ bs ''s*true.*fork/i'',
         regex = rx_seqs [rx_str_i ''while'', Star rx_space, rx_str_i ''true'',
                 Star rx_any, rx_str_i ''fork''] \<rparr> ]"

definition HISTORY_TAMPERING :: "pattern list" where
  "HISTORY_TAMPERING =
     [ \<lparr> printed = ''/history'' @ bs ''s+-c/i'',
         regex = rx_seqs [rx_str_i ''history'', rx_plus rx_space, rx_str_i ''-c''] \<rparr>,
       \<lparr> printed = ''/unset'' @ bs ''s+HISTFILE/i'',
         regex = rx_seqs [rx_str_i ''unset'', rx_plus rx_space, rx_str_i ''HISTFILE''] \<rparr>,
       \<lparr> printed = ''/export'' @ bs ''s+HISTSIZE=0/i'',
         regex = rx_seqs [rx_str_i ''export'', rx_plus rx_space, rx_str_i ''HISTSIZE=0''] \<rparr>,
       \<lparr> printed = ''/shred.*'' @ bs ''.bash_history/i'',
         regex = rx_seqs [rx_str_i ''shred'', Star rx_any, rx_str_i ''.bash_history''] \<rparr> ]"

record check_group =
  patterns :: "pattern list"
  label :: string
  group_severity :: string

definition allChecks :: "check_group list" where
  "allChecks =
     [ \<lparr> patterns = DESTRUCTIVE_COMMANDS, label = ''Destructive command'',
         group_severity = ''critical'' \<rparr>,
       \<lparr> patterns = PERMISSION_COMMANDS, label = ''Dangerous permission change'',
         group_severity = ''high'' \<rparr>,
       \<lparr> patterns = PIPE_EXECUTION, label = ''Pipe-to-shell execution'',
         group_severity = ''critical'' \<rparr>,
       \<lparr> patterns = REVERSE_SHELL, label = ''Reverse shell attempt'',
         group_severity = ''critical'' \<rparr>,
       \<lparr> patterns = FORK_BOMB, label = ''Fork bomb detected'',
         group_severity = ''critical'' \<rparr>,
       \<lparr> patterns = HISTORY_TAMPERING, label = ''History tampering'',
         group_severity = ''high'' \<rparr> ]"

text \<open>
  The two nested loops: the first pattern of the first group that matches decides.
\<close>

fun scan_patterns :: "pattern list \<Rightarrow> string \<Rightarrow> pattern option" where
  "scan_patterns [] text = None"
| "scan_patterns (p # ps) text = (if rx_test (regex p) text then Some p else scan_patterns ps text)"

fun scan_groups :: "check_group list \<Rightarrow> string \<Rightarrow> policy_result option" where
  "scan_groups [] text = None"
| "scan_groups (g # gs) text =
     (case scan_patterns (patterns g) text of
        Some p \<Rightarrow> Some \<lparr> pass = False,
                         reason = label g @ '': matches '' @ printed p,
                         severity = group_severity g \<rparr>
      | None \<Rightarrow> scan_groups gs text)"

text \<open>
  \<^verbatim>\<open>systemCommands(action, context)\<close>. For an action that is neither a
  \<^verbatim>\<open>system_command\<close> nor a \<^verbatim>\<open>tool_call\<close> the function returns early only under the
  inner test \<^verbatim>\<open>if (!text)\<close>; with text it goes on to the pattern loops.
\<close>

definition systemCommands :: "action \<Rightarrow> context \<Rightarrow> policy_result" where
  "systemCommands act ctx =
     (let text = fullText (metadata act) in
      if type act \<noteq> ''system_command'' \<and> type act \<noteq> ''tool_call'' \<and> text = [] then
        \<lparr> pass = True, reason = ''Not a system command'', severity = ''none'' \<rparr>
      else
        (case scan_groups allChecks text of
           Some result \<Rightarrow> result
         | None \<Rightarrow> \<lparr> pass = True, reason = ''No dangerous system commands detected'',
                      severity = ''none'' \<rparr>))"

subsection \<open>lib/audit.js\<close>

text \<open>
  \<^verbatim>\<open>Array.prototype.slice(k)\<close> with one argument: a negative \<open>k\<close> counts from the end,
  and the start index is clamped to the array.
\<close>

definition js_slice_from :: "int \<Rightarrow> 'a list \<Rightarrow> 'a list" where
  "js_slice_from k xs =
     (let len = int (length xs);
          start = (if k < 0 then max (len + k) 0 else min k len)
      in drop (nat start) xs)"

text \<open>
  An audit record is the logged entry with a generated id and timestamp in front. Both
  come from the clock and the random generator; the model takes them as an argument.
\<close>

record 'e audit_record =
  rec_id :: string
  rec_timestamp :: string
  rec_entry :: 'e

record 'e AuditLogger =
  entries :: "'e audit_record list"
  maxEntries :: int

text \<open>
  The constructor: \<^verbatim>\<open>this.maxEntries = options.maxEntries || 10000\<close>. The options
  that only steer console and file output are not part of the model.
\<close>

definition AuditLogger_new :: "int option \<Rightarrow> 'e AuditLogger" where
  "AuditLogger_new opt_maxEntries =
     \<lparr> entries = [],
       maxEntries = (case opt_maxEntries of
                       None \<Rightarrow> 10000
                     | Some m \<Rightarrow> if m = 0 then 10000 else m) \<rparr>"

text \<open>
  \<^verbatim>\<open>log(entry)\<close>: push the record, then trim to the last \<open>maxEntries\<close> records when
  the array has grown beyond that. Writing to the console or to the output file cannot
  throw out of \<^verbatim>\<open>log\<close> (the file write is wrapped in its own handler).
\<close>

definition AuditLogger_log ::
  "string \<times> string \<Rightarrow> 'e \<Rightarrow> 'e AuditLogger \<Rightarrow> 'e audit_record \<times> 'e AuditLogger" where
  "AuditLogger_log stamp entry lg =
     (let record = \<lparr> rec_id = fst stamp, rec_timestamp = snd stamp, rec_entry = entry \<rparr>;
          pushed = entries lg @ [record];
          trimmed = (if int (length pushed) > maxEntries lg
                     then js_slice_from (- maxEntries lg) pushed
                     else pushed)
      in (record, lg \<lparr> entries := trimmed \<rparr>))"

subsection \<open>Thrown values\<close>

text \<open>
  JavaScript can throw any value. The handlers of the pipeline read \<^verbatim>\<open>err.message\<close>, so
  three kinds matter: an \<^verbatim>\<open>Error\<close> object with its message, some other value without a
  message property (the template renders \<^verbatim>\<open>undefined\<close>), and \<^verbatim>\<open>null\<close> or
  \<^verbatim>\<open>undefined\<close>, on which the property access itself throws a \<^verbatim>\<open>TypeError\<close>.
\<close>

datatype thrown =
    Thrown_error string
  | Thrown_other
  | Thrown_nullish

text \<open>The \<^verbatim>\<open>TypeError\<close> of reading property \<open>p\<close> of \<^verbatim>\<open>undefined\<close> (V8's wording).\<close>

definition TypeError_message :: "string \<Rightarrow> string" where
  "TypeError_message p =
     ''Cannot read properties of undefined (reading '' @ [CHR 0x27] @ p @ [CHR 0x27] @ '')''"

definition TypeError_reading :: "string \<Rightarrow> thrown" where
  "TypeError_reading p = Thrown_error (TypeError_message p)"

subsection \<open>lib/intent-verifier.js\<close>

text \<open>
  \<^verbatim>\<open>userMessages.match(/\b[a-z]{4,}\b/g) || []\<close>. Both ends of a match are word
  boundaries and everything between is a word character, so a match is a maximal run of
  word characters; the pattern accepts the run when it has at least four characters, all
  in \<^verbatim>\<open>a-z\<close>. \<open>word_runs\<close> cuts the text into its maximal runs of word characters.
\<close>

fun word_runs :: "string \<Rightarrow> string \<Rightarrow> string list" where
  "word_runs cur [] = (if cur = [] then [] else [cur])"
| "word_runs cur (c # cs) =
     (if is_word_char c then word_runs (cur @ [c]) cs
      else (if cur = [] then [] else [cur]) @ word_runs [] cs)"

definition match_words :: "string \<Rightarrow> string list" where
  "match_words s = filter (\<lambda>w. 4 \<le> length w \<and> list_all is_az w) (word_runs [] s)"

definition stopwords :: "string list" where
  "stopwords =
     [''this'', ''that'', ''with'', ''from'', ''they'', ''been'', ''have'',
      ''what'', ''when'', ''where'', ''which'', ''their'', ''about'', ''would'', ''could'',
      ''should'', ''there'', ''these'', ''those'', ''then'', ''than'', ''them'', ''were'',
      ''will'', ''your'', ''each'', ''make'', ''like'', ''long'', ''look'', ''many'', ''some'',
      ''into'', ''does'', ''just'', ''over'', ''such'', ''take'', ''also'', ''back'', ''after'',
      ''only'', ''come'', ''made'', ''find'', ''here'', ''thing'', ''very'', ''still'', ''know'',
      ''need'', ''want'', ''please'', ''help'', ''can'']"

text \<open>\<^verbatim>\<open>[...new Set(xs)]\<close>: the first occurrence of every element, in order.\<close>

fun set_order :: "'a list \<Rightarrow> 'a list \<Rightarrow> 'a list" where
  "set_order seen [] = []"
| "set_order seen (x # xs) =
     (if x \<in> set seen then set_order seen xs else x # set_order (seen @ [x]) xs)"

definition extractIntentKeywords :: "message list \<Rightarrow> string list" where
  "extractIntentKeywords msgs =
     (let userMessages =
            toLowerCase (join '' ''
              (map (\<lambda>m. or_str [content m] [])
                   (filter (\<lambda>m. role m = ''user'') msgs)));
          words = match_words userMessages
      in set_order [] (filter (\<lambda>w. w \<notin> set stopwords) words))"

text \<open>
  The object \<^verbatim>\<open>heuristicScore\<close> returns; the two keyword properties exist only on the
  last return path.
\<close>

record heuristic_score =
  h_confidence :: real
  h_method :: string
  h_reason :: string
  h_matchedKeywords :: "string list option"
  h_totalKeywords :: "nat option"

definition heuristicScore :: "action \<Rightarrow> message list \<Rightarrow> heuristic_score" where
  "heuristicScore act conversation =
     (if conversation = [] then
        \<lparr> h_confidence = 0.5, h_method = ''heuristic'',
          h_reason = ''No conversation context available'',
          h_matchedKeywords = None, h_totalKeywords = None \<rparr>
      else
        let keywords = extractIntentKeywords conversation in
        if keywords = [] then
          \<lparr> h_confidence = 0.5, h_method = ''heuristic'',
            h_reason = ''No keywords extracted from conversation'',
            h_matchedKeywords = None, h_totalKeywords = None \<rparr>
        else
          let actionText = toLowerCase (fullText (metadata act));
              toolName = toLowerCase (tool act);
              matched = filter (\<lambda>kw. includes_str actionText kw \<or> includes_str toolName kw)
                          keywords;
              ratio = d_div (real (length matched)) (real (min (length keywords) 10));
              conf = min (d_add (double_of 0.3) (d_mul ratio (double_of 0.7))) 1.0
          in \<lparr> h_confidence = conf, h_method = ''heuristic'',
               h_reason = (if length matched > 0
                           then ''Matched keywords: '' @ join '', '' (take 5 matched)
                           else ''No keyword matches between conversation and action''),
               h_matchedKeywords = Some matched,
               h_totalKeywords = Some (length keywords) \<rparr>)"

text \<open>The intent result that \<^verbatim>\<open>IntentVerifier.verify\<close> hands back.\<close>

record intent_result =
  i_confidence :: real
  i_aligned :: bool
  i_method :: string
  i_reason :: string
  i_matchedKeywords :: "string list option"
  i_totalKeywords :: "nat option"
  i_llmError :: "string option"

text \<open>
  The injected model function is outside the repository. It is called with a prompt
  rendered from the action and the conversation, so the model passes these two; it may
  touch the outside world \<open>'w\<close>. What \<^verbatim>\<open>llmVerify\<close> then does with the reply depends
  only on what the first \<^verbatim>\<open>/\{[^}]+\}/\<close> match of the reply text parses to:
  \<^item> \<open>Rejects e\<close>: the call throws or rejects with \<open>e\<close>;
  \<^item> \<open>Resolves_object c r\<close>: the match parses to an object whose \<^verbatim>\<open>confidence\<close> is the
    number \<open>c\<close> and whose \<^verbatim>\<open>reason\<close> is the text \<open>r\<close> (\<open>None\<close> when absent);
  \<^item> \<open>Resolves_unparsed\<close>: there is no match, or \<^verbatim>\<open>JSON.parse\<close> fails on it.
\<close>

datatype llm_reply =
    Rejects thrown
  | Resolves_object "real option" "string option"
  | Resolves_unparsed

type_synonym 'w llm_fn = "action \<Rightarrow> message list \<Rightarrow> 'w \<Rightarrow> llm_reply \<times> 'w"

record 'w IntentVerifier =
  llmFn :: "'w llm_fn option"
  threshold :: real
  fallbackToHeuristic :: bool

record 'w IntentVerifier_options =
  opt_llmFn :: "'w llm_fn option"
  opt_threshold :: "real option"
  opt_fallbackToHeuristic :: "bool option"

text \<open>\<^verbatim>\<open>x || 0.5\<close> and \<^verbatim>\<open>x || 0\<close> on a number that may be absent.\<close>

definition or_num :: "real option \<Rightarrow> real \<Rightarrow> real" where
  "or_num x d = (case x of None \<Rightarrow> d | Some v \<Rightarrow> if v = 0 then d else v)"

definition IntentVerifier_new :: "'w IntentVerifier_options \<Rightarrow> 'w IntentVerifier" where
  "IntentVerifier_new options =
     \<lparr> llmFn = opt_llmFn options,
       threshold = or_num (opt_threshold options) 0.5,
       fallbackToHeuristic = (opt_fallbackToHeuristic options \<noteq> Some False) \<rparr>"

definition with_aligned :: "heuristic_score \<Rightarrow> real \<Rightarrow> string option \<Rightarrow> intent_result" where
  "with_aligned h thr err =
     \<lparr> i_confidence = h_confidence h,
       i_aligned = (h_confidence h \<ge> thr),
       i_method = h_method h,
       i_reason = h_reason h,
       i_matchedKeywords = h_matchedKeywords h,
       i_totalKeywords = h_totalKeywords h,
       i_llmError = err \<rparr>"

definition llmVerify ::
  "'w IntentVerifier \<Rightarrow> 'w llm_fn \<Rightarrow> action \<Rightarrow> message list \<Rightarrow> 'w
     \<Rightarrow> (thrown + intent_result) \<times> 'w" where
  "llmVerify iv f act conversation w =
     (case f act conversation w of
        (Rejects e, w') \<Rightarrow> (Inl e, w')
      | (Resolves_object c r, w') \<Rightarrow>
          (Inr \<lparr> i_confidence = max 0 (min 1 (or_num c 0)),
                 i_aligned = (or_num c 0 \<ge> threshold iv),
                 i_method = ''llm'',
                 i_reason = or_str [r] ''LLM verification complete'',
                 i_matchedKeywords = None, i_totalKeywords = None, i_llmError = None \<rparr>, w')
      | (Resolves_unparsed, w') \<Rightarrow>
          (Inr \<lparr> i_confidence = 0.5,
                 i_aligned = True,
                 i_method = ''llm-fallback'',
                 i_reason = ''Could not parse LLM response, defaulting to neutral'',
                 i_matchedKeywords = None, i_totalKeywords = None, i_llmError = None \<rparr>, w'))"

text \<open>
  \<^verbatim>\<open>IntentVerifier.verify\<close>. In the handler, \<^verbatim>\<open>result.llmError = err.message\<close> itself
  throws when \<^verbatim>\<open>err\<close> is \<^verbatim>\<open>null\<close> or \<^verbatim>\<open>undefined\<close>.
\<close>

definition IntentVerifier_verify ::
  "'w IntentVerifier \<Rightarrow> action \<Rightarrow> message list \<Rightarrow> 'w \<Rightarrow> (thrown + intent_result) \<times> 'w" where
  "IntentVerifier_verify iv act conversation w =
     (case llmFn iv of
        Some f \<Rightarrow>
          (case llmVerify iv f act conversation w of
             (Inr r, w') \<Rightarrow> (Inr r, w')
           | (Inl err, w') \<Rightarrow>
               if fallbackToHeuristic iv then
                 (case err of
                    Thrown_error m \<Rightarrow>
                      (Inr (with_aligned (heuristicScore act conversation) (threshold iv) (Some m)), w')
                  | Thrown_other \<Rightarrow>
                      (Inr (with_aligned (heuristicScore act conversation) (threshold iv) None), w')
                  | Thrown_nullish \<Rightarrow> (Inl (TypeError_reading ''message''), w'))
               else (Inl err, w'))
      | None \<Rightarrow>
          (Inr (with_aligned (heuristicScore act conversation) (threshold iv) None), w))"

subsection \<open>lib/sentinel.js\<close>

text \<open>
  A policy evaluator is caller-supplied code. Besides returning a result object it may
  return nothing (\<^verbatim>\<open>undefined\<close>) or throw, and it may keep state of its own, as the
  rate limiter does; that state is part of the outside world \<open>'w\<close>.
\<close>

datatype check_outcome =
    Returns policy_result
  | Returns_undefined
  | Throws thrown

type_synonym 'w check_fn = "action \<Rightarrow> context \<Rightarrow> 'w \<Rightarrow> check_outcome \<times> 'w"

record 'w policy =
  name :: string
  check :: "'w check_fn"

record violation =
  v_policy :: string
  v_reason :: string
  v_severity :: string

text \<open>
  An element of \<^verbatim>\<open>policyResults\<close>: \<^verbatim>\<open>{ policy: policy.name, ...result }\<close>. Spreading
  \<^verbatim>\<open>undefined\<close> adds nothing, which leaves the name alone.
\<close>

record policy_entry =
  pr_policy :: string
  pr_result :: "policy_result option"

record action_summary =
  s_type :: string
  s_tool :: string
  s_args :: json
  s_source :: string

text \<open>
  The verdict. The elapsed wall-clock time and the action's timestamp are left out: they
  come from the clock and enter no decision.
\<close>

record verdict =
  allowed :: bool
  confidence :: real
  violations :: "violation list"
  intent :: "intent_result option"
  policyResults :: "policy_entry list"
  action_summary :: action_summary

record 'w Sentinel =
  policies :: "'w policy list"
  auditLog :: "verdict AuditLogger"
  intentVerifier :: "'w IntentVerifier option"

record 'w config =
  enableIntentVerification :: "bool option"
  cfg_llmFn :: "'w llm_fn option"
  intentThreshold :: "real option"
  audit_maxEntries :: "int option"
  useBuiltinPolicies :: "bool option"

definition addPolicy :: "string \<Rightarrow> 'w check_fn \<Rightarrow> 'w Sentinel \<Rightarrow> 'w Sentinel" where
  "addPolicy n checkFn s = s \<lparr> policies := policies s @ [\<lparr> name = n, check = checkFn \<rparr>] \<rparr>"

definition removePolicy :: "string \<Rightarrow> 'w Sentinel \<Rightarrow> 'w Sentinel" where
  "removePolicy n s = s \<lparr> policies := filter (\<lambda>p. name p \<noteq> n) (policies s) \<rparr>"

text \<open>
  The constructor. The eight built-in evaluators of \<^verbatim>\<open>policies/index.js\<close> are an
  argument, looked up by name. The intent verifier is built from the model function and
  the threshold only, so its \<open>fallbackToHeuristic\<close> is always on.
\<close>

definition Sentinel_new :: "'w config \<Rightarrow> (string \<Rightarrow> 'w check_fn) \<Rightarrow> 'w Sentinel" where
  "Sentinel_new cfg allPolicies =
     (let s0 = \<lparr> policies = [],
                 auditLog = AuditLogger_new (audit_maxEntries cfg),
                 intentVerifier =
                   (if enableIntentVerification cfg \<noteq> Some False
                    then Some (IntentVerifier_new
                           \<lparr> opt_llmFn = cfg_llmFn cfg,
                             opt_threshold = Some (or_num (intentThreshold cfg) 0.5),
                             opt_fallbackToHeuristic = None \<rparr>)
                    else None) \<rparr>
      in if useBuiltinPolicies cfg \<noteq> Some False
         then fold (\<lambda>n. addPolicy n (allPolicies n))
                [''privilegeEscalation'', ''dataExfiltration'', ''internalAccess'',
                 ''fileTraversal'', ''systemCommands'', ''intentAlignment'', ''rateLimit'',
                 ''scopeEnforcement''] s0
         else s0)"

text \<open>
  What \<^verbatim>\<open>err.message\<close> yields inside a template string, or \<open>None\<close> when reading it
  throws.
\<close>

fun message_text :: "thrown \<Rightarrow> string option" where
  "message_text (Thrown_error m) = Some m"
| "message_text Thrown_other = Some ''undefined''"
| "message_text Thrown_nullish = None"

text \<open>
  Step 2 of \<^verbatim>\<open>verify\<close>, the loop over the registered policies. The entry of
  \<^verbatim>\<open>policyResults\<close> is pushed before \<^verbatim>\<open>result.pass\<close> is read; reading it on
  \<^verbatim>\<open>undefined\<close> throws into the handler. The handler pushes a violation and nothing
  else. When the handler itself throws, the loop and \<^verbatim>\<open>verify\<close> are left.
\<close>

fun run_policies ::
  "'w policy list \<Rightarrow> action \<Rightarrow> context \<Rightarrow> violation list \<Rightarrow> policy_entry list \<Rightarrow> 'w
     \<Rightarrow> (thrown + violation list \<times> policy_entry list) \<times> 'w" where
  "run_policies [] act ctx vs prs w = (Inr (vs, prs), w)"
| "run_policies (p # ps) act ctx vs prs w =
     (case check p act ctx w of
        (Returns result, w') \<Rightarrow>
          run_policies ps act ctx
            (if \<not> pass result
             then vs @ [\<lparr> v_policy = name p, v_reason = reason result,
                          v_severity = severity result \<rparr>]
             else vs)
            (prs @ [\<lparr> pr_policy = name p, pr_result = Some result \<rparr>]) w'
      | (Returns_undefined, w') \<Rightarrow>
          run_policies ps act ctx
            (vs @ [\<lparr> v_policy = name p,
                     v_reason = ''Policy error: '' @ TypeError_message ''pass'',
                     v_severity = ''high'' \<rparr>])
            (prs @ [\<lparr> pr_policy = name p, pr_result = None \<rparr>]) w'
      | (Throws err, w') \<Rightarrow>
          (case message_text err of
             Some m \<Rightarrow>
               run_policies ps act ctx
                 (vs @ [\<lparr> v_policy = name p, v_reason = ''Policy error: '' @ m,
                          v_severity = ''high'' \<rparr>])
                 prs w'
           | None \<Rightarrow> (Inl (TypeError_reading ''message''), w')))"

text \<open>
  Step 3, the optional intent check, with the handler around it.
\<close>

definition check_intent ::
  "'w IntentVerifier option \<Rightarrow> violation list \<Rightarrow> action \<Rightarrow> 'w
     \<Rightarrow> (thrown + intent_result option) \<times> 'w" where
  "check_intent verifier vs act w =
     (case verifier of
        None \<Rightarrow> (Inr None, w)
      | Some iv \<Rightarrow>
          if vs = [] then
            (case IntentVerifier_verify iv act (conversationContext act) w of
               (Inr r, w') \<Rightarrow> (Inr (Some r), w')
             | (Inl err, w') \<Rightarrow>
                 (case message_text err of
                    Some m \<Rightarrow>
                      (Inr (Some \<lparr> i_confidence = 0.5, i_aligned = True, i_method = ''error'',
                                   i_reason = ''Intent verification error: '' @ m,
                                   i_matchedKeywords = None, i_totalKeywords = None,
                                   i_llmError = None \<rparr>), w')
                  | None \<Rightarrow> (Inl (TypeError_reading ''message''), w')))
          else (Inr None, w))"

text \<open>Steps 4 and 5, the verdict.\<close>

definition build_verdict ::
  "violation list \<Rightarrow> policy_entry list \<Rightarrow> intent_result option \<Rightarrow> action \<Rightarrow> verdict" where
  "build_verdict vs prs intentResult act =
     (let is_allowed = (length vs = 0);
          hasCritical = list_ex (\<lambda>v. v_severity v = ''critical'') vs;
          conf = (if is_allowed then
                    (case intentResult of Some r \<Rightarrow> i_confidence r | None \<Rightarrow> 1.0)
                  else if hasCritical then 0.0
                  else 0.2)
      in \<lparr> allowed = is_allowed,
           confidence = conf,
           violations = vs,
           intent = intentResult,
           policyResults = prs,
           action_summary = \<lparr> s_type = type act, s_tool = tool act, s_args = args act,
                              s_source = source act \<rparr> \<rparr>)"

text \<open>
  \<^verbatim>\<open>verify(rawAction, context)\<close>. It returns the verdict or the value it throws, the
  sentinel with the verdict logged, and the world as the evaluators and the model function
  left it. The id and timestamp of the audit record are an argument.
\<close>

definition verify ::
  "string \<times> string \<Rightarrow> raw_action \<Rightarrow> context \<Rightarrow> 'w Sentinel \<Rightarrow> 'w
     \<Rightarrow> (thrown + verdict) \<times> 'w Sentinel \<times> 'w" where
  "verify stamp rawAction ctx s w =
     (let act = parseAction rawAction ctx in
      case run_policies (policies s) act ctx [] [] w of
        (Inl err, w1) \<Rightarrow> (Inl err, s, w1)
      | (Inr (vs, prs), w1) \<Rightarrow>
          (case check_intent (intentVerifier s) vs act w1 of
             (Inl err, w2) \<Rightarrow> (Inl err, s, w2)
           | (Inr intentResult, w2) \<Rightarrow>
               let v = build_verdict vs prs intentResult act
               in (Inr v, s \<lparr> auditLog := snd (AuditLogger_log stamp v (auditLog s)) \<rparr>, w2)))"

subsection \<open>What each evaluator did during one call\<close>

text \<open>
  The outcomes of the evaluators in registration order, each run on the world its
  predecessors left.
\<close>

fun outcomes :: "'w policy list \<Rightarrow> action \<Rightarrow> context \<Rightarrow> 'w \<Rightarrow> check_outcome list" where
  "outcomes [] act ctx w = []"
| "outcomes (p # ps) act ctx w =
     (case check p act ctx w of (out, w') \<Rightarrow> out # outcomes ps act ctx w')"

fun world_after :: "'w policy list \<Rightarrow> action \<Rightarrow> context \<Rightarrow> 'w \<Rightarrow> 'w" where
  "world_after [] act ctx w = w"
| "world_after (p # ps) act ctx w = world_after ps act ctx (snd (check p act ctx w))"

fun raised :: "check_outcome \<Rightarrow> bool" where
  "raised (Throws e) = True"
| "raised out = False"

text \<open>
  What one outcome adds to the violation list and to \<^verbatim>\<open>policyResults\<close>, and the two
  lists a whole run accumulates when no handler throws.
\<close>

fun violation_of :: "string \<Rightarrow> check_outcome \<Rightarrow> violation list" where
  "violation_of n (Returns result) =
     (if pass result then []
      else [\<lparr> v_policy = n, v_reason = reason result, v_severity = severity result \<rparr>])"
| "violation_of n Returns_undefined =
     [\<lparr> v_policy = n, v_reason = ''Policy error: '' @ TypeError_message ''pass'',
        v_severity = ''high'' \<rparr>]"
| "violation_of n (Throws err) =
     (case message_text err of
        Some m \<Rightarrow> [\<lparr> v_policy = n, v_reason = ''Policy error: '' @ m, v_severity = ''high'' \<rparr>]
      | None \<Rightarrow> [])"

fun entry_of :: "string \<Rightarrow> check_outcome \<Rightarrow> policy_entry list" where
  "entry_of n (Returns result) = [\<lparr> pr_policy = n, pr_result = Some result \<rparr>]"
| "entry_of n Returns_undefined = [\<lparr> pr_policy = n, pr_result = None \<rparr>]"
| "entry_of n (Throws err) = []"

definition violations_of :: "'w policy list \<Rightarrow> check_outcome list \<Rightarrow> violation list" where
  "violations_of ps outs = concat (map2 violation_of (map name ps) outs)"

definition entries_of :: "'w policy list \<Rightarrow> check_outcome list \<Rightarrow> policy_entry list" where
  "entries_of ps outs = concat (map2 entry_of (map name ps) outs)"

subsection \<open>The heuristic score as the specification words it\<close>







subsection \<open>Maximal runs of word characters\<close>


subsection \<open>Sequences of rate-limit calls\<close>

text \<open>
  Shorthands for the history array of a key, the fingerprint of a call and the merged
  limits of a context, as \<^verbatim>\<open>rateLimit\<close> computes them.
\<close>

definition history_of :: "call_history \<Rightarrow> string \<Rightarrow> call_record list" where
  "history_of H k = (case H k of None \<Rightarrow> [] | Some h \<Rightarrow> h)"

definition fingerprint_of :: "(json \<Rightarrow> string) \<Rightarrow> action \<Rightarrow> string" where
  "fingerprint_of sf a = tool a @ '':'' @ sf (args a)"

definition limits_of :: "context \<Rightarrow> limits" where
  "limits_of c = merge_limits DEFAULT_LIMITS (rateLimits c)"

text \<open>
  Successive calls of the evaluator, each with its own clock reading, action and context,
  threading the call history; the results are returned in call order.
\<close>

fun rate_calls ::
  "(json \<Rightarrow> string) \<Rightarrow> (int \<times> action \<times> context) list \<Rightarrow> call_history
     \<Rightarrow> policy_result list \<times> call_history" where
  "rate_calls sf [] H = ([], H)"
| "rate_calls sf ((now, a, c) # cs) H =
     (let (r, H') = rateLimit sf now a c H;
          (rs, H'') = rate_calls sf cs H'
      in (r # rs, H''))"

text \<open>How many calls of a sequence carried the key \<open>k\<close> and passed.\<close>

definition passed_with_key ::
  "string \<Rightarrow> (int \<times> action \<times> context) list \<Rightarrow> policy_result list \<Rightarrow> nat" where
  "passed_with_key k cs rs =
     length (filter (\<lambda>(call, r). rate_key (snd (snd call)) = k \<and> pass r) (zip cs rs))"

text \<open>A window of one second starting at \<open>t0\<close>, and the records of a history inside it.\<close>

definition in_window :: "int \<Rightarrow> int \<Rightarrow> bool" where
  "in_window t0 t = (t0 \<le> t \<and> t < t0 + 1000)"

definition window_count :: "int \<Rightarrow> call_record list \<Rightarrow> nat" where
  "window_count t0 hs = length (filter (\<lambda>h. in_window t0 (timestamp h)) hs)"

subsection \<open>Sample inputs\<close>

definition demo_context :: "context" where
  "demo_context = \<lparr> sessionId = None, userId = None, rateLimits = None,
                     conversationHistory = None, messages = None \<rparr>"

definition demo_action :: "string \<Rightarrow> string \<Rightarrow> string \<Rightarrow> action" where
  "demo_action ty tname text =
     \<lparr> type = ty, tool = tname, args = JObj [(''command'', JStr text)], source = ''assistant'',
       conversationContext = [],
       metadata = \<lparr> fullText = text, allStrings = [text] \<rparr> \<rparr>"

definition demo_calls :: "(int \<times> action \<times> context) list" where
  "demo_calls = map (\<lambda>(t, tname). (t, demo_action ''tool_call'' tname ''x'', demo_context))
                    [(0, ''a''), (1, ''b''), (2, ''c''), (3, ''d''), (4, ''e'')]"



definition demo_raw :: raw_action where
  "demo_raw = \<lparr> raw_tool = Some ''exec'', raw_name = None, raw_function = None,
                 raw_args = Some (JObj [(''command'', JStr ''echo hello'')]),
                 raw_arguments = None, raw_parameters = None, raw_source = None \<rparr>"

definition passing_check :: "'w check_fn" where
  "passing_check act ctx w = (Returns \<lparr> pass = True, reason = ''ok'', severity = ''none'' \<rparr>, w)"

definition failing_check :: "'w check_fn" where
  "failing_check act ctx w =
     (Returns \<lparr> pass = False, reason = ''not on weekends'', severity = ''medium'' \<rparr>, w)"

definition broken_check :: "'w check_fn" where
  "broken_check act ctx w = (Throws (Thrown_error ''boom''), w)"

definition zero_llm :: "'w llm_fn" where
  "zero_llm act conversation w = (Resolves_object (Some 0) (Some ''unrelated''), w)"

definition failing_llm :: "'w llm_fn" where
  "failing_llm act conversation w = (Rejects (Thrown_error ''model down''), w)"

text \<open>A model function that counts its calls in the world.\<close>

definition counting_llm :: "nat llm_fn" where
  "counting_llm act conversation n = (Resolves_object (Some 0.9) None, Suc n)"

definition demo_sentinel :: "'w policy list \<Rightarrow> 'w IntentVerifier option \<Rightarrow> 'w Sentinel" where
  "demo_sentinel ps iv = \<lparr> policies = ps, auditLog = AuditLogger_new None, intentVerifier = iv \<rparr>"

definition broken_sentinel :: "unit Sentinel" where
  "broken_sentinel = demo_sentinel [\<lparr> name = ''broken'', check = broken_check \<rparr>] None"

definition mixed_sentinel :: "unit Sentinel" where
  "mixed_sentinel =
     demo_sentinel [\<lparr> name = ''first'', check = passing_check \<rparr>,
                    \<lparr> name = ''broken'', check = broken_check \<rparr>,
                    \<lparr> name = ''noWeekends'', check = failing_check \<rparr>] None"




definition zero_llm_sentinel :: "unit Sentinel" where
  "zero_llm_sentinel =
     demo_sentinel [\<lparr> name = ''first'', check = passing_check \<rparr>]
       (Some \<lparr> llmFn = Some zero_llm, threshold = 0.5, fallbackToHeuristic = True \<rparr>)"

definition no_fallback_sentinel :: "unit Sentinel" where
  "no_fallback_sentinel =
     demo_sentinel [\<lparr> name = ''first'', check = passing_check \<rparr>]
       (Some \<lparr> llmFn = Some failing_llm, threshold = 0.5, fallbackToHeuristic = False \<rparr>)"

definition counting_sentinel :: "nat Sentinel" where
  "counting_sentinel =
     demo_sentinel [\<lparr> name = ''noWeekends'', check = failing_check \<rparr>]
       (Some \<lparr> llmFn = Some counting_llm, threshold = 0.5, fallbackToHeuristic = True \<rparr>)"

definition write_raw :: raw_action where
  "write_raw = \<lparr> raw_tool = Some ''write'', raw_name = None, raw_function = None,
                  raw_args = Some (JObj [(''path'', JStr ''cleanup.sh''), (''content'', JStr ''rm -rf /'')]),
                  raw_arguments = None, raw_parameters = None, raw_source = None \<rparr>"

section \<open>Properties\<close>

subsection \<open>Audit log\<close>








subsection \<open>Rate limiter\<close>

lemma rl_pass:
  "pass (fst (rateLimit sf now a c H)) =
     (let history = shift_old now (history_of H (rate_key c)) in
      int (length history) < maxCallsPerMinute (limits_of c)
    \<and> int (length (filter (\<lambda>h. now - timestamp h < 1000) history)) < maxCallsPerSecond (limits_of c)
    \<and> int (length (filter (\<lambda>h. actionKey h = fingerprint_of sf a \<and> now - timestamp h < 10000) history))
        < maxIdenticalCalls (limits_of c)
    \<and> int (length (filter (\<lambda>h. now - timestamp h < burstWindow (limits_of c)) history))
        < burstMax (limits_of c))"
  by (simp add: rateLimit_def Let_def history_of_def fingerprint_of_def limits_of_def not_le)

lemma rl_store:
  "snd (rateLimit sf now a c H) =
     H (rate_key c \<mapsto> shift_old now (history_of H (rate_key c))
          @ (if pass (fst (rateLimit sf now a c H))
             then [\<lparr> timestamp = now, actionKey = fingerprint_of sf a \<rparr>] else []))"
  by (simp add: rateLimit_def Let_def history_of_def fingerprint_of_def)


lemma filter_shift_old:
  assumes "\<And>h. P h \<Longrightarrow> \<not> now - timestamp h > 60000"
  shows "filter P (shift_old now hs) = filter P hs"
  using assms by (induction hs) auto

lemma window_count_shift_old:
  assumes "in_window t0 now"
  shows "window_count t0 (shift_old now hs) = window_count t0 hs"
  unfolding window_count_def
  by (rule arg_cong[where f=length], rule filter_shift_old)
     (use assms in \<open>auto simp: in_window_def\<close>)

lemma rl_other_key:
  "rate_key c \<noteq> k \<Longrightarrow> history_of (snd (rateLimit sf now a c H)) k = history_of H k"
  by (simp add: rl_store history_of_def)

lemma rl_same_key:
  "history_of (snd (rateLimit sf now a c H)) (rate_key c) =
     shift_old now (history_of H (rate_key c))
       @ (if pass (fst (rateLimit sf now a c H))
          then [\<lparr> timestamp = now, actionKey = fingerprint_of sf a \<rparr>] else [])"
  by (simp add: rl_store history_of_def)

lemma rl_window_count:
  assumes "rate_key c = k \<longrightarrow> in_window t0 now"
  shows "window_count t0 (history_of (snd (rateLimit sf now a c H)) k) =
         window_count t0 (history_of H k)
           + (if rate_key c = k \<and> pass (fst (rateLimit sf now a c H)) then 1 else 0)"
proof (cases "rate_key c = k")
  case False
  then show ?thesis by (simp add: rl_other_key)
next
  case True
  with assms have w: "in_window t0 now" by simp
  have "window_count t0 (history_of (snd (rateLimit sf now a c H)) (rate_key c)) =
        window_count t0 (shift_old now (history_of H (rate_key c)))
          + (if pass (fst (rateLimit sf now a c H)) then 1 else 0)"
    unfolding rl_same_key using w by (simp add: window_count_def)
  then show ?thesis using True w by (simp add: window_count_shift_old)
qed

lemma rate_calls_window_count:
  assumes "\<forall>(t, a, c) \<in> set cs. rate_key c = k \<longrightarrow> in_window t0 t"
  shows "window_count t0 (history_of (snd (rate_calls sf cs H)) k) =
         window_count t0 (history_of H k) + passed_with_key k cs (fst (rate_calls sf cs H))"
  using assms
proof (induction cs arbitrary: H)
  case Nil
  then show ?case by (simp add: passed_with_key_def)
next
  case (Cons call cs)
  obtain t a c where call: "call = (t, a, c)" by (cases call) auto
  let ?H' = "snd (rateLimit sf t a c H)"
  have step: "window_count t0 (history_of ?H' k) =
        window_count t0 (history_of H k)
          + (if rate_key c = k \<and> pass (fst (rateLimit sf t a c H)) then 1 else 0)"
    by (rule rl_window_count) (use Cons.prems call in auto)
  have rest: "window_count t0 (history_of (snd (rate_calls sf cs ?H')) k) =
        window_count t0 (history_of ?H' k) + passed_with_key k cs (fst (rate_calls sf cs ?H'))"
    by (rule Cons.IH) (use Cons.prems in auto)
  show ?case
    using step rest
    by (simp add: call passed_with_key_def split_beta Let_def)
qed

lemma window_count_le_lastSecond:
  assumes "in_window t0 now"
  shows "window_count t0 hs \<le> length (filter (\<lambda>h. now - timestamp h < 1000) hs)"
proof -
  have "length (filter (\<lambda>h. in_window t0 (timestamp h)) hs)
        \<le> length (filter (\<lambda>h. now - timestamp h < 1000) hs)"
    using assms by (induction hs) (auto simp: in_window_def)
  then show ?thesis by (simp add: window_count_def)
qed

lemma rl_reject_per_second:
  assumes "in_window t0 now"
    and "maxCallsPerSecond (limits_of c) \<le> int (window_count t0 (history_of H (rate_key c)))"
  shows "\<not> pass (fst (rateLimit sf now a c H))"
proof -
  let ?hs = "shift_old now (history_of H (rate_key c))"
  have "window_count t0 ?hs = window_count t0 (history_of H (rate_key c))"
    using assms(1) by (rule window_count_shift_old)
  moreover have "window_count t0 ?hs \<le> length (filter (\<lambda>h. now - timestamp h < 1000) ?hs)"
    using assms(1) by (rule window_count_le_lastSecond)
  ultimately have "maxCallsPerSecond (limits_of c)
      \<le> int (length (filter (\<lambda>h. now - timestamp h < 1000) ?hs))"
    using assms(2) by linarith
  then show ?thesis by (simp add: rl_pass Let_def)
qed

lemma rl_pass_limits_positive:
  assumes "pass (fst (rateLimit sf now a c H))"
  shows "0 < maxCallsPerMinute (limits_of c) \<and> 0 < maxCallsPerSecond (limits_of c)
       \<and> 0 < maxIdenticalCalls (limits_of c) \<and> 0 < burstMax (limits_of c)"
  using assms unfolding rl_pass Let_def by linarith

lemma rl_pass_after_reset:
  "pass (fst (rateLimit sf now a c (rateLimit_reset H))) =
     (0 < maxCallsPerMinute (limits_of c) \<and> 0 < maxCallsPerSecond (limits_of c)
       \<and> 0 < maxIdenticalCalls (limits_of c) \<and> 0 < burstMax (limits_of c))"
  by (simp add: rl_pass Let_def rateLimit_reset_def history_of_def)


lemma demo_calls_passed:
  "passed_with_key ''default'' demo_calls (fst (rate_calls (\<lambda>j. ''{}'') demo_calls Map.empty)) = 5"
  by (simp add: demo_calls_def demo_action_def demo_context_def passed_with_key_def
      rateLimit_def Let_def rate_key_def merge_limits_def DEFAULT_LIMITS_def)


lemma demo_calls_window:
  "\<forall>(t, a, c) \<in> set demo_calls. rate_key c = ''default'' \<longrightarrow> in_window 0 t"
  by (simp add: demo_calls_def in_window_def)

lemma demo_first_call_passes:
  "pass (fst (rateLimit (\<lambda>j. ''{}'') 0 (demo_action ''tool_call'' ''a'' ''x'') demo_context Map.empty))"
  by (simp add: rl_pass Let_def history_of_def limits_of_def demo_context_def
      merge_limits_def DEFAULT_LIMITS_def)

text \<open>
  Claim C7. Take any sequence of calls in which every call with the key \<open>k\<close> lies in one
  window of a second, and in which at least \<open>maxCallsPerSecond\<close> calls with that key
  passed. Then a further call with that key inside the same window is rejected. If a call
  with this context can pass at all, it passes on the history that \<^verbatim>\<open>reset\<close> leaves.
  Every call leaves, for its key, the cleaned history followed by its own record exactly
  when it passed: a rejected call is not recorded.
\<close>

theorem rate_limit_per_second_and_reset:
  assumes "\<forall>(t, a, c) \<in> set cs. rate_key c = k \<longrightarrow> in_window t0 t"
    and "in_window t0 now"
    and "rate_key ctx = k"
    and "maxCallsPerSecond (limits_of ctx) \<le> int (passed_with_key k cs (fst (rate_calls sf cs H)))"
  shows "\<not> pass (fst (rateLimit sf now act ctx (snd (rate_calls sf cs H))))
       \<and> (pass (fst (rateLimit sf t1 a1 ctx H1))
            \<longrightarrow> pass (fst (rateLimit sf t2 a2 ctx (rateLimit_reset H2))))
       \<and> snd (rateLimit sf t3 a3 c3 H3) =
           H3 (rate_key c3 \<mapsto> shift_old t3 (history_of H3 (rate_key c3))
                 @ (if pass (fst (rateLimit sf t3 a3 c3 H3))
                    then [\<lparr> timestamp = t3, actionKey = fingerprint_of sf a3 \<rparr>] else []))"
proof -
  let ?H = "snd (rate_calls sf cs H)"
  have "window_count t0 (history_of ?H k) =
        window_count t0 (history_of H k) + passed_with_key k cs (fst (rate_calls sf cs H))"
    using assms(1) by (rule rate_calls_window_count)
  then have "maxCallsPerSecond (limits_of ctx) \<le> int (window_count t0 (history_of ?H (rate_key ctx)))"
    using assms(3,4) by simp
  with assms(2) have a: "\<not> pass (fst (rateLimit sf now act ctx ?H))"
    by (rule rl_reject_per_second)
  have b: "pass (fst (rateLimit sf t1 a1 ctx H1))
            \<longrightarrow> pass (fst (rateLimit sf t2 a2 ctx (rateLimit_reset H2)))"
    using rl_pass_limits_positive[of sf t1 a1 ctx H1] by (simp add: rl_pass_after_reset)
  from a b rl_store[of sf t3 a3 c3 H3] show ?thesis by blast
qed

theorem rate_limit_per_second_and_reset_witness:
  "in_window 0 4
   \<and> rate_key demo_context = ''default''
   \<and> maxCallsPerSecond (limits_of demo_context)
       \<le> int (passed_with_key ''default'' demo_calls
                 (fst (rate_calls (\<lambda>j. ''{}'') demo_calls Map.empty)))
   \<and> \<not> pass (fst (rateLimit (\<lambda>j. ''{}'') 4 (demo_action ''tool_call'' ''f'' ''x'') demo_context
                 (snd (rate_calls (\<lambda>j. ''{}'') demo_calls Map.empty))))
   \<and> pass (fst (rateLimit (\<lambda>j. ''{}'') 4 (demo_action ''tool_call'' ''f'' ''x'') demo_context
                 (rateLimit_reset (snd (rate_calls (\<lambda>j. ''{}'') demo_calls Map.empty)))))"
proof -
  have w: "in_window 0 4" by (simp add: in_window_def)
  have k: "rate_key demo_context = ''default''" by (simp add: rate_key_def demo_context_def)
  have n: "maxCallsPerSecond (limits_of demo_context)
       \<le> int (passed_with_key ''default'' demo_calls
                 (fst (rate_calls (\<lambda>j. ''{}'') demo_calls Map.empty)))"
    by (simp add: demo_calls_passed limits_of_def demo_context_def merge_limits_def
        DEFAULT_LIMITS_def)
  from rate_limit_per_second_and_reset [OF demo_calls_window w k n,
      of "demo_action ''tool_call'' ''f'' ''x''" 0 "demo_action ''tool_call'' ''a'' ''x''" Map.empty
         4 "demo_action ''tool_call'' ''f'' ''x''" "snd (rate_calls (\<lambda>j. ''{}'') demo_calls Map.empty)"]
    demo_first_call_passes w k n
  show ?thesis by blast
qed

subsection \<open>Rounding to doubles\<close>

lemma round_even_ge1: "1 \<le> x \<Longrightarrow> 1 \<le> round_even x"
proof -
  assume "1 \<le> x"
  then have "1 \<le> \<lfloor>x\<rfloor>" by simp
  then show ?thesis by (auto simp: round_even_def Let_def)
qed

lemma round_even_nonneg: "0 \<le> x \<Longrightarrow> 0 \<le> round_even x"
proof -
  assume "0 \<le> x"
  then have "0 \<le> \<lfloor>x\<rfloor>" by simp
  then show ?thesis by (auto simp: round_even_def Let_def)
qed

lemma to_binade_unit_pos: "0 < u \<Longrightarrow> 0 < snd (to_binade n m u)"
  by (induction n m u rule: to_binade.induct) auto

lemma to_binade_nonneg: "0 \<le> m \<Longrightarrow> 0 \<le> fst (to_binade n m u)"
  by (induction n m u rule: to_binade.induct) auto

lemma to_binade_large: "2 ^ 52 \<le> m \<Longrightarrow> 2 ^ 52 \<le> fst (to_binade n m u)"
  by (induction n m u rule: to_binade.induct) auto

lemma to_binade_lower:
  "0 < m \<Longrightarrow> min (2 ^ 52) (m * 2 ^ n) \<le> fst (to_binade n m u)"
proof (induction n m u rule: to_binade.induct)
  case (1 m u)
  then show ?case by simp
next
  case (2 n m u)
  show ?case
  proof (cases "m \<ge> 2 ^ 53")
    case True
    then have "2 ^ 52 \<le> m / 2" by simp
    then have "2 ^ 52 \<le> fst (to_binade n (m / 2) (u * 2))" by (rule to_binade_large)
    with True show ?thesis by simp
  next
    case False
    show ?thesis
    proof (cases "m < 2 ^ 52")
      case True
      have "min (2 ^ 52) (m * 2 * 2 ^ n) \<le> fst (to_binade n (m * 2) (u / 2))"
        using "2.IH"(2)[OF False True] "2.prems" by simp
      with False True show ?thesis by (simp add: mult.assoc)
    next
      case False
      with \<open>\<not> m \<ge> 2 ^ 53\<close> show ?thesis by simp
    qed
  qed
qed

lemma double_of_nonneg: "0 \<le> x \<Longrightarrow> 0 \<le> double_of x"
proof (cases "x = 0")
  case True
  then show ?thesis by (simp add: double_of_def)
next
  case False
  assume "0 \<le> x"
  with False have x: "0 < x" by simp
  obtain m u where mu: "to_binade 1074 \<bar>x\<bar> 1 = (m, u)" by (cases "to_binade 1074 \<bar>x\<bar> 1")
  have "0 \<le> m" using to_binade_nonneg[of "\<bar>x\<bar>" 1074 1] mu by simp
  then have "0 \<le> round_even m" by (rule round_even_nonneg)
  moreover have "0 < u" using to_binade_unit_pos[of 1 1074 "\<bar>x\<bar>"] mu by simp
  ultimately show ?thesis using x mu False by (simp add: double_of_def)
qed

lemma double_of_pos:
  assumes "1 / 4 \<le> x"
  shows "0 < double_of x"
proof -
  have x: "0 < x" using assms by simp
  obtain m u where mu: "to_binade 1074 \<bar>x\<bar> 1 = (m, u)" by (cases "to_binade 1074 \<bar>x\<bar> 1")
  have "(4::real) = 2 ^ 2" by simp
  also have "\<dots> \<le> 2 ^ 1074" by (rule power_increasing) simp_all
  finally have p: "4 \<le> (2::real) ^ 1074" .
  have x0: "0 \<le> x" using assms by simp
  have "1 = (1 / 4) * (4::real)" by simp
  also have "\<dots> \<le> x * 2 ^ 1074"
    using assms p x0 by (rule mult_mono) simp
  finally have "1 \<le> x * 2 ^ 1074" .
  moreover have "(1::real) \<le> 2 ^ 52" by simp
  ultimately have "1 \<le> min (2 ^ 52) (x * 2 ^ 1074)" by (rule min.boundedI[rotated])
  also have "\<dots> \<le> fst (to_binade 1074 \<bar>x\<bar> 1)"
    using to_binade_lower[of "\<bar>x\<bar>" 1074 1] x by simp
  finally have "1 \<le> m" using mu by simp
  then have "1 \<le> round_even m" by (rule round_even_ge1)
  moreover have "0 < u" using to_binade_unit_pos[of 1 1074 "\<bar>x\<bar>"] mu by simp
  ultimately show ?thesis using x mu by (simp add: double_of_def)
qed

lemma to_binade_up:
  assumes "2 ^ 52 \<le> m * 2 ^ k" and "m * 2 ^ k < 2 ^ 53" and "k \<le> n" and "0 < m"
  shows "to_binade n m u = (m * 2 ^ k, u / 2 ^ k)"
  using assms
proof (induction k arbitrary: n m u)
  case 0
  then show ?case by (cases n) simp_all
next
  case (Suc k)
  from Suc.prems(3) obtain n' where n: "n = Suc n'" and kn: "k \<le> n'" by (cases n) auto
  have "m * 2 \<le> m * 2 ^ Suc k" using Suc.prems(4) by simp
  with Suc.prems(2) have small: "m * 2 < 2 ^ 53" by linarith
  then have lt: "m < 2 ^ 52" by simp
  have "to_binade n' (m * 2) (u / 2) = (m * 2 * 2 ^ k, u / 2 / 2 ^ k)"
    by (rule Suc.IH) (use Suc.prems kn in \<open>simp_all add: mult.assoc\<close>)
  with lt n show ?case by (simp add: mult.assoc)
qed

text \<open>
  The value of \<open>double_of x\<close> from the exponent: when \<open>x * 2 ^ k\<close> lies in
  \<open>[2^52, 2^53)\<close>, the double is that number rounded to an integer, over \<open>2 ^ k\<close>.
\<close>

lemma double_of_eval:
  assumes "0 < x" and "2 ^ 52 \<le> x * 2 ^ k" and "x * 2 ^ k < 2 ^ 53" and "k \<le> 1074"
  shows "double_of x = of_int (round_even (x * 2 ^ k)) / 2 ^ k"
proof -
  have "to_binade 1074 \<bar>x\<bar> 1 = (\<bar>x\<bar> * 2 ^ k, 1 / 2 ^ k)"
    by (rule to_binade_up) (use assms in simp_all)
  with assms(1) show ?thesis by (simp add: double_of_def)
qed

lemma double_of_03: "double_of (3 / 10) = 5404319552844595 / 2 ^ 54"
proof -
  have "double_of (3 / 10) = of_int (round_even (3 / 10 * 2 ^ 54)) / 2 ^ 54"
    by (rule double_of_eval) simp_all
  then show ?thesis by (simp add: round_even_def Let_def)
qed

lemma double_of_07: "double_of (7 / 10) = 6305039478318694 / 2 ^ 53"
proof -
  have "double_of (7 / 10) = of_int (round_even (7 / 10 * 2 ^ 53)) / 2 ^ 53"
    by (rule double_of_eval) simp_all
  then show ?thesis by (simp add: round_even_def Let_def)
qed

lemma double_of_half: "double_of (1 / 2) = 1 / 2"
proof -
  have "double_of (1 / 2) = of_int (round_even (1 / 2 * 2 ^ 53)) / 2 ^ 53"
    by (rule double_of_eval) simp_all
  then show ?thesis by (simp add: round_even_def Let_def)
qed

subsection \<open>Heuristic intent scorer\<close>



























subsection \<open>The policy loop\<close>

lemma length_outcomes: "length (outcomes ps act ctx w) = length ps"
  by (induction ps arbitrary: w) (auto split: prod.splits)

lemma run_policies_fst:
  "fst (run_policies ps act ctx vs prs w) =
     (if Throws Thrown_nullish \<in> set (outcomes ps act ctx w)
      then Inl (TypeError_reading ''message'')
      else Inr (vs @ violations_of ps (outcomes ps act ctx w),
                prs @ entries_of ps (outcomes ps act ctx w)))"
proof (induction ps arbitrary: vs prs w)
  case Nil
  then show ?case by (simp add: violations_of_def entries_of_def)
next
  case (Cons p ps)
  obtain out w' where c: "check p act ctx w = (out, w')" by (cases "check p act ctx w")
  show ?case
  proof (cases out)
    case (Returns result)
    with c Cons.IH show ?thesis
      by (simp add: violations_of_def entries_of_def)
  next
    case Returns_undefined
    with c Cons.IH show ?thesis
      by (simp add: violations_of_def entries_of_def)
  next
    case (Throws err)
    with c Cons.IH show ?thesis
      by (cases err) (simp_all add: violations_of_def entries_of_def)
  qed
qed

lemma run_policies_snd:
  "Throws Thrown_nullish \<notin> set (outcomes ps act ctx w) \<Longrightarrow>
   snd (run_policies ps act ctx vs prs w) = world_after ps act ctx w"
proof (induction ps arbitrary: vs prs w)
  case Nil
  then show ?case by simp
next
  case (Cons p ps)
  obtain out w' where c: "check p act ctx w = (out, w')" by (cases "check p act ctx w")
  show ?case
  proof (cases out)
    case (Returns result)
    with c Cons show ?thesis by simp
  next
    case Returns_undefined
    with c Cons show ?thesis by simp
  next
    case (Throws err)
    with c Cons show ?thesis by (cases err) simp_all
  qed
qed

subsection \<open>The pipeline\<close>

lemma verify_run:
  assumes "verify stamp raw ctx s w = (Inr v, s', w')"
  defines "act \<equiv> parseAction raw ctx"
  defines "outs \<equiv> outcomes (policies s) act ctx w"
  shows "Throws Thrown_nullish \<notin> set outs
       \<and> (\<exists>ir. check_intent (intentVerifier s) (violations_of (policies s) outs) act
                  (world_after (policies s) act ctx w) = (Inr ir, w')
               \<and> v = build_verdict (violations_of (policies s) outs)
                        (entries_of (policies s) outs) ir act)
       \<and> s' = s \<lparr> auditLog := snd (AuditLogger_log stamp v (auditLog s)) \<rparr>"
proof -
  obtain res w1 where rp: "run_policies (policies s) act ctx [] [] w = (res, w1)"
    by (cases "run_policies (policies s) act ctx [] [] w")
  from assms(1) rp obtain vs prs where res: "res = Inr (vs, prs)"
    by (cases res) (auto simp: verify_def Let_def act_def)
  have f: "fst (run_policies (policies s) act ctx [] [] w) = Inr (vs, prs)"
    using rp res by simp
  have nn: "Throws Thrown_nullish \<notin> set outs"
    using f unfolding run_policies_fst outs_def by (auto split: if_splits)
  have vs: "vs = violations_of (policies s) outs" and prs: "prs = entries_of (policies s) outs"
    using f nn unfolding run_policies_fst outs_def by (auto split: if_splits)
  have w1: "w1 = world_after (policies s) act ctx w"
    using run_policies_snd[of "policies s" act ctx w "[]" "[]"] nn rp
    by (simp add: outs_def)
  obtain ires w2 where ci: "check_intent (intentVerifier s) vs act w1 = (ires, w2)"
    by (cases "check_intent (intentVerifier s) vs act w1")
  from assms(1) rp res ci obtain ir where ir: "ires = Inr ir"
    by (cases ires) (auto simp: verify_def Let_def act_def)
  from assms(1) rp res ci ir
  have "v = build_verdict vs prs ir act" "w' = w2"
    "s' = s \<lparr> auditLog := snd (AuditLogger_log stamp v (auditLog s)) \<rparr>"
    by (auto simp: verify_def Let_def act_def)
  with nn ci ir vs prs w1 show ?thesis by auto
qed



lemma entries_of_names:
  "length outs = length ps \<Longrightarrow>
   map pr_policy (entries_of ps outs) =
     map fst (filter (\<lambda>(n, out). \<not> raised out) (zip (map name ps) outs))"
proof (induction ps outs rule: list_induct2')
  case (4 p ps out outs)
  then show ?case by (cases out) (simp_all add: entries_of_def)
qed (simp_all add: entries_of_def)

subsection \<open>Verdicts and policy errors\<close>





text \<open>
  The entries of \<^verbatim>\<open>policyResults\<close> of a returned verdict are, in registration order,
  those of the registered policies whose evaluator returned. When no evaluator threw,
  there is exactly one entry per registered policy.
\<close>

lemma policy_results_cover_returning_policies:
  assumes "verify stamp raw ctx s w = (Inr v, s', w')"
  shows "map pr_policy (policyResults v) =
           map fst (filter (\<lambda>(n, out). \<not> raised out)
                      (zip (map name (policies s))
                           (outcomes (policies s) (parseAction raw ctx) ctx w)))
       \<and> ((\<forall>out \<in> set (outcomes (policies s) (parseAction raw ctx) ctx w). \<not> raised out)
            \<longrightarrow> map pr_policy (policyResults v) = map name (policies s))"
proof -
  let ?outs = "outcomes (policies s) (parseAction raw ctx) ctx w"
  let ?z = "zip (map name (policies s)) ?outs"
  from verify_run[OF assms] obtain ir where
    "v = build_verdict (violations_of (policies s) ?outs) (entries_of (policies s) ?outs) ir
           (parseAction raw ctx)"
    by blast
  then have pr: "policyResults v = entries_of (policies s) ?outs"
    by (simp add: build_verdict_def Let_def)
  have len: "length ?outs = length (policies s)" by (rule length_outcomes)
  have a: "map pr_policy (policyResults v) = map fst (filter (\<lambda>(n, out). \<not> raised out) ?z)"
    unfolding pr using len by (rule entries_of_names)
  have b: "map pr_policy (policyResults v) = map name (policies s)"
    if "\<forall>out \<in> set ?outs. \<not> raised out"
  proof -
    have "\<forall>x \<in> set ?z. (\<lambda>(n, out). \<not> raised out) x"
      using that by (auto dest: set_zip_rightD)
    then have "filter (\<lambda>(n, out). \<not> raised out) ?z = ?z"
      by (simp only: filter_True)
    then show ?thesis using a len by simp
  qed
  from a b show ?thesis by blast
qed

text \<open>
  Claim C4. The claim is that \<^verbatim>\<open>policyResults\<close> holds exactly one entry per registered
  policy, in registration order, also when an evaluator throws. The loop pushes the entry
  inside the \<^verbatim>\<open>try\<close> block, for every evaluator that returns; the handler pushes the
  violation only. With a single registered policy whose evaluator throws, the returned
  verdict names the policy in its violations and its \<^verbatim>\<open>policyResults\<close> is empty.
\<close>

theorem policy_results_miss_raising_policy:
  "fst (verify (''audit-1'', ''t1'') demo_raw demo_context broken_sentinel ()) =
     Inr \<lparr> allowed = False, confidence = 1 / 5,
           violations = [\<lparr> v_policy = ''broken'', v_reason = ''Policy error: boom'',
                           v_severity = ''high'' \<rparr>],
           intent = None,
           policyResults = [],
           action_summary = \<lparr> s_type = ''system_command'', s_tool = ''exec'',
                              s_args = JObj [(''command'', JStr ''echo hello'')],
                              s_source = ''assistant'' \<rparr> \<rparr>
   \<and> map name (policies broken_sentinel) = [''broken'']"
  by (simp add: verify_def broken_sentinel_def demo_sentinel_def broken_check_def
      check_intent_def build_verdict_def parseAction_def demo_raw_def demo_context_def
      classifyAction_def toLowerCase_def toLowerCase_char_def Let_def)

subsection \<open>Intent check and verdict\<close>

lemma check_intent_skipped:
  "verifier = None \<or> vs \<noteq> [] \<Longrightarrow> check_intent verifier vs act w = (Inr None, w)"
  by (auto simp: check_intent_def split: option.splits)

lemma check_intent_ran:
  assumes "check_intent (Some iv) [] act w = (Inr ir, w')"
  shows "ir \<noteq> None"
  using assms
  by (auto simp: check_intent_def split: prod.splits sum.splits option.splits)

lemma build_verdict_fields:
  "allowed (build_verdict vs prs ir act) = (vs = [])"
  "violations (build_verdict vs prs ir act) = vs"
  "intent (build_verdict vs prs ir act) = ir"
  "policyResults (build_verdict vs prs ir act) = prs"
  "confidence (build_verdict vs prs ir act) =
     (if vs = [] then (case ir of Some r \<Rightarrow> i_confidence r | None \<Rightarrow> 1)
      else if list_ex (\<lambda>v. v_severity v = ''critical'') vs then 0 else 0.2)"
  by (simp_all add: build_verdict_def Let_def split: option.splits)

text \<open>
  Claim C5. In every \<^verbatim>\<open>verify\<close> call that returns, the intent verifier is invoked only
  when the accumulated violation list is empty and a verifier is configured: a verdict
  with violations has no intent result, and the world is then the one the policy
  evaluators left (the model function has not run). Conversely, with no violations and a
  verifier configured, the verdict carries an intent result.
\<close>

theorem intent_only_without_violations:
  assumes "verify stamp raw ctx s w = (Inr v, s', w')"
  shows "(violations v \<noteq> [] \<or> intentVerifier s = None
            \<longrightarrow> intent v = None \<and> w' = world_after (policies s) (parseAction raw ctx) ctx w)
       \<and> (intent v \<noteq> None \<longrightarrow> violations v = [] \<and> intentVerifier s \<noteq> None)
       \<and> (violations v = [] \<and> intentVerifier s \<noteq> None \<longrightarrow> intent v \<noteq> None)"
proof -
  let ?act = "parseAction raw ctx"
  let ?outs = "outcomes (policies s) ?act ctx w"
  let ?vs = "violations_of (policies s) ?outs"
  let ?w1 = "world_after (policies s) ?act ctx w"
  from verify_run[OF assms] obtain ir where
    ci: "check_intent (intentVerifier s) ?vs ?act ?w1 = (Inr ir, w')"
    and v: "v = build_verdict ?vs (entries_of (policies s) ?outs) ir ?act"
    by blast
  have vv: "violations v = ?vs" and iv: "intent v = ir"
    by (simp_all add: v build_verdict_fields)
  have a: "violations v \<noteq> [] \<or> intentVerifier s = None \<longrightarrow> intent v = None \<and> w' = ?w1"
  proof
    assume skip: "violations v \<noteq> [] \<or> intentVerifier s = None"
    have "check_intent (intentVerifier s) ?vs ?act ?w1 = (Inr None, ?w1)"
      by (rule check_intent_skipped) (use skip vv in auto)
    with ci iv show "intent v = None \<and> w' = ?w1" by simp
  qed
  have b: "violations v = [] \<and> intentVerifier s \<noteq> None \<longrightarrow> intent v \<noteq> None"
  proof
    assume run: "violations v = [] \<and> intentVerifier s \<noteq> None"
    then obtain verifier where "intentVerifier s = Some verifier" by auto
    with ci run vv have "check_intent (Some verifier) [] ?act ?w1 = (Inr ir, w')" by simp
    then have "ir \<noteq> None" by (rule check_intent_ran)
    with iv show "intent v \<noteq> None" by simp
  qed
  have c: "intent v \<noteq> None \<longrightarrow> violations v = [] \<and> intentVerifier s \<noteq> None"
    using a by auto
  from a c b show ?thesis by (intro conjI)
qed

theorem intent_only_without_violations_witness:
  "(\<exists>v s'. verify (''audit-1'', ''t1'') demo_raw demo_context counting_sentinel 0 = (Inr v, s', 0)
        \<and> violations v \<noteq> [] \<and> intent v = None)
   \<and> (\<exists>v s'. verify (''audit-2'', ''t2'') demo_raw demo_context
                 (removePolicy ''noWeekends'' counting_sentinel) 0 = (Inr v, s', 1)
        \<and> violations v = [] \<and> intent v \<noteq> None)"
proof -
  obtain r s1 w1 where r: "verify (''audit-1'', ''t1'') demo_raw demo_context counting_sentinel 0 = (r, s1, w1)"
    by (cases "verify (''audit-1'', ''t1'') demo_raw demo_context counting_sentinel 0")
  have "\<exists>v. r = Inr v \<and> violations v \<noteq> []"
    using r by (auto simp: verify_def counting_sentinel_def demo_sentinel_def failing_check_def
        check_intent_def build_verdict_def Let_def)
  then obtain v where v: "r = Inr v" "violations v \<noteq> []" by blast
  have wa: "world_after (policies counting_sentinel) (parseAction demo_raw demo_context) demo_context 0 = 0"
    by (simp add: counting_sentinel_def demo_sentinel_def failing_check_def)
  from intent_only_without_violations [OF r[unfolded v(1)]] v(2)
  have one: "intent v = None \<and> w1 = 0" unfolding wa by blast
  let ?s = "removePolicy ''noWeekends'' counting_sentinel"
  obtain r2 s2 w2 where r2: "verify (''audit-2'', ''t2'') demo_raw demo_context ?s 0 = (r2, s2, w2)"
    by (cases "verify (''audit-2'', ''t2'') demo_raw demo_context ?s 0")
  have "\<exists>v. r2 = Inr v \<and> violations v = [] \<and> w2 = 1"
    using r2 by (auto simp: verify_def counting_sentinel_def demo_sentinel_def failing_check_def
        removePolicy_def check_intent_def build_verdict_def IntentVerifier_verify_def llmVerify_def
        counting_llm_def Let_def)
  then obtain v2 where v2: "r2 = Inr v2" "violations v2 = []" "w2 = 1" by blast
  have iv: "intentVerifier ?s \<noteq> None"
    by (simp add: counting_sentinel_def demo_sentinel_def removePolicy_def)
  from intent_only_without_violations [OF r2[unfolded v2(1)]] v2(2) iv
  have two: "intent v2 \<noteq> None" by blast
  from r v one r2 v2 two show ?thesis by auto
qed

text \<open>
  Claim C10. The verdict is allowed exactly when its violation list is empty, and that
  list is determined by the outcomes of the policy evaluators alone. An action without
  violations is allowed even when the intent result is not aligned or its confidence is
  below a threshold; the verdict then reports the intent confidence.
\<close>

theorem allowed_iff_no_violations:
  assumes "verify stamp raw ctx s w = (Inr v, s', w')"
  shows "allowed v = (violations v = [])
       \<and> violations v = violations_of (policies s)
                           (outcomes (policies s) (parseAction raw ctx) ctx w)
       \<and> (\<forall>r. violations v = [] \<and> intent v = Some r \<and> (\<not> i_aligned r \<or> i_confidence r < thr)
              \<longrightarrow> allowed v \<and> confidence v = i_confidence r)"
proof -
  from verify_run[OF assms] obtain ir where
    v: "v = build_verdict (violations_of (policies s) (outcomes (policies s) (parseAction raw ctx) ctx w))
              (entries_of (policies s) (outcomes (policies s) (parseAction raw ctx) ctx w)) ir
              (parseAction raw ctx)"
    by blast
  show ?thesis unfolding v by (simp add: build_verdict_fields)
qed

theorem allowed_iff_no_violations_witness:
  "\<exists>v s' r. verify (''audit-1'', ''t1'') demo_raw demo_context zero_llm_sentinel () = (Inr v, s', ())
      \<and> violations v = [] \<and> intent v = Some r \<and> \<not> i_aligned r \<and> i_confidence r < 1 / 2
      \<and> allowed v \<and> confidence v = 0"
proof -
  obtain r s1 w1 where r: "verify (''audit-1'', ''t1'') demo_raw demo_context zero_llm_sentinel () = (r, s1, w1)"
    by (cases "verify (''audit-1'', ''t1'') demo_raw demo_context zero_llm_sentinel ()")
  have "\<exists>v ir. r = Inr v \<and> violations v = [] \<and> intent v = Some ir \<and> \<not> i_aligned ir
          \<and> i_confidence ir = 0"
    using r by (auto simp: verify_def zero_llm_sentinel_def demo_sentinel_def passing_check_def
        check_intent_def build_verdict_def IntentVerifier_verify_def llmVerify_def
        zero_llm_def or_num_def Let_def)
  then obtain v ir where v: "r = Inr v" "violations v = []" "intent v = Some ir" "\<not> i_aligned ir"
    "i_confidence ir = 0" by blast
  from allowed_iff_no_violations [OF r[unfolded v(1)], of "1 / 2"] v
  have "allowed v \<and> confidence v = 0" by auto
  with r v show ?thesis by auto
qed

subsection \<open>Confidence of the verdict\<close>

lemma heuristic_confidence_pos: "0 < h_confidence (heuristicScore act conversation)"
proof -
  have "0 < d_add (double_of (3 / 10)) (d_mul (d_div (real n) (real m)) (double_of (7 / 10)))"
    for n m :: nat
  proof -
    have "0 \<le> d_div (real n) (real m)"
      unfolding d_div_def by (rule double_of_nonneg) simp
    moreover have "(0::real) \<le> double_of (7 / 10)" by (simp add: double_of_07)
    ultimately have "0 \<le> d_div (real n) (real m) * double_of (7 / 10)"
      by (rule mult_nonneg_nonneg)
    then have "0 \<le> d_mul (d_div (real n) (real m)) (double_of (7 / 10))"
      unfolding d_mul_def by (rule double_of_nonneg)
    moreover have "(1::real) / 4 \<le> double_of (3 / 10)" by (simp add: double_of_03)
    ultimately have "1 / 4 \<le> double_of (3 / 10)
                        + d_mul (d_div (real n) (real m)) (double_of (7 / 10))"
      by linarith
    then show ?thesis
      unfolding d_add_def by (rule double_of_pos)
  qed
  then show ?thesis
    by (simp add: heuristicScore_def Let_def min_def)
qed

lemma intent_zero_is_llm:
  assumes "IntentVerifier_verify iv act conversation w = (Inr r, w')"
    and "i_confidence r = 0"
  shows "i_method r = ''llm''"
proof (cases "llmFn iv")
  case None
  with assms(1) have "r = with_aligned (heuristicScore act conversation) (threshold iv) None"
    by (simp add: IntentVerifier_verify_def)
  with assms(2) heuristic_confidence_pos[of act conversation] show ?thesis
    by (simp add: with_aligned_def)
next
  case (Some f)
  obtain reply w1 where f: "f act conversation w = (reply, w1)" by (cases "f act conversation w")
  show ?thesis
  proof (cases reply)
    case (Rejects err)
    with Some f assms(1) have "\<exists>e. r = with_aligned (heuristicScore act conversation) (threshold iv) e"
      by (cases err) (auto simp: IntentVerifier_verify_def llmVerify_def split: if_splits)
    with assms(2) heuristic_confidence_pos[of act conversation] show ?thesis
      by (auto simp: with_aligned_def)
  next
    case (Resolves_object c t)
    with Some f assms(1) show ?thesis
      by (auto simp: IntentVerifier_verify_def llmVerify_def)
  next
    case Resolves_unparsed
    with Some f assms show ?thesis
      by (auto simp: IntentVerifier_verify_def llmVerify_def)
  qed
qed

lemma check_intent_zero_is_llm:
  assumes "check_intent verifier vs act w = (Inr (Some r), w')"
    and "i_confidence r = 0"
  shows "i_method r = ''llm''"
proof (cases verifier)
  case None
  with assms(1) show ?thesis by (simp add: check_intent_def)
next
  case (Some iv)
  show ?thesis
  proof (cases "vs = []")
    case False
    with Some assms(1) show ?thesis by (simp add: check_intent_def)
  next
    case True
    obtain res w1 where iv: "IntentVerifier_verify iv act (conversationContext act) w = (res, w1)"
      by (cases "IntentVerifier_verify iv act (conversationContext act) w")
    show ?thesis
    proof (cases res)
      case (Inr r')
      with Some True iv assms(1) have "r' = r" by (simp add: check_intent_def)
      with iv Inr assms(2) show ?thesis by (auto dest: intent_zero_is_llm)
    next
      case (Inl err)
      with Some True iv assms show ?thesis
        by (cases err) (auto simp: check_intent_def)
    qed
  qed
qed

text \<open>
  Claim C1 says that the confidence is 0 if and only if the verdict is not allowed and has
  a critical violation. An allowed verdict takes the confidence of the intent result, and
  the model-backed check can report 0: here the action is allowed, without violations, and
  the confidence is 0.
\<close>

theorem confidence_zero_allowed_counterexample:
  "fst (verify (''audit-1'', ''t1'') demo_raw demo_context zero_llm_sentinel ()) =
     Inr \<lparr> allowed = True, confidence = 0, violations = [],
           intent = Some \<lparr> i_confidence = 0, i_aligned = False, i_method = ''llm'',
                           i_reason = ''unrelated'', i_matchedKeywords = None,
                           i_totalKeywords = None, i_llmError = None \<rparr>,
           policyResults = [\<lparr> pr_policy = ''first'',
                              pr_result = Some \<lparr> pass = True, reason = ''ok'',
                                                 severity = ''none'' \<rparr> \<rparr>],
           action_summary = \<lparr> s_type = ''system_command'', s_tool = ''exec'',
                              s_args = JObj [(''command'', JStr ''echo hello'')],
                              s_source = ''assistant'' \<rparr> \<rparr>"
  by (simp add: verify_def zero_llm_sentinel_def demo_sentinel_def passing_check_def
      check_intent_def build_verdict_def IntentVerifier_verify_def llmVerify_def zero_llm_def
      or_num_def parseAction_def demo_raw_def demo_context_def
      classifyAction_def toLowerCase_def toLowerCase_char_def Let_def)


text \<open>
  Claim C1, amended. For every \<^verbatim>\<open>verify\<close> call that returns: the confidence is 0 when
  the verdict is not allowed and some violation is critical; 1 when it is allowed and no
  intent check was made; the confidence of the intent result when it is allowed and an
  intent check was made; 0.2 when it is not allowed and no violation is critical. A
  confidence of 0 occurs only for a blocked verdict with a critical violation, or for an
  allowed verdict whose intent result has method \<open>llm\<close> and confidence 0.
\<close>

theorem verdict_confidence_rule:
  assumes "verify stamp raw ctx s w = (Inr v, s', w')"
  shows "(\<not> allowed v \<and> list_ex (\<lambda>x. v_severity x = ''critical'') (violations v)
            \<longrightarrow> confidence v = 0)
       \<and> (allowed v \<and> intent v = None \<longrightarrow> confidence v = 1)
       \<and> (\<not> allowed v \<and> \<not> list_ex (\<lambda>x. v_severity x = ''critical'') (violations v)
            \<longrightarrow> confidence v = 0.2)
       \<and> (\<forall>r. allowed v \<and> intent v = Some r \<longrightarrow> confidence v = i_confidence r)
       \<and> (confidence v = 0 \<longrightarrow>
            (\<not> allowed v \<and> list_ex (\<lambda>x. v_severity x = ''critical'') (violations v))
            \<or> (allowed v \<and> (\<exists>r. intent v = Some r \<and> i_confidence r = 0 \<and> i_method r = ''llm'')))"
proof -
  let ?act = "parseAction raw ctx"
  let ?outs = "outcomes (policies s) ?act ctx w"
  let ?vs = "violations_of (policies s) ?outs"
  from verify_run[OF assms] obtain ir where
    ci: "check_intent (intentVerifier s) ?vs ?act (world_after (policies s) ?act ctx w) = (Inr ir, w')"
    and v: "v = build_verdict ?vs (entries_of (policies s) ?outs) ir ?act"
    by blast
  have llm: "i_method r = ''llm''" if "ir = Some r" "i_confidence r = 0" for r
    using ci that by (auto dest: check_intent_zero_is_llm)
  show ?thesis
    unfolding v build_verdict_fields
    using llm by (cases ir) auto
qed

theorem verdict_confidence_rule_witness:
  "\<exists>v s'. verify (''audit-1'', ''t1'') demo_raw demo_context mixed_sentinel () = (Inr v, s', ())
      \<and> \<not> allowed v \<and> \<not> list_ex (\<lambda>x. v_severity x = ''critical'') (violations v)
      \<and> confidence v = 1 / 5"
proof -
  obtain r s1 w1 where r: "verify (''audit-1'', ''t1'') demo_raw demo_context mixed_sentinel () = (r, s1, w1)"
    by (cases "verify (''audit-1'', ''t1'') demo_raw demo_context mixed_sentinel ()")
  have "\<exists>v. r = Inr v \<and> \<not> allowed v
          \<and> \<not> list_ex (\<lambda>x. v_severity x = ''critical'') (violations v)"
    using r by (auto simp: verify_def mixed_sentinel_def demo_sentinel_def passing_check_def
        failing_check_def broken_check_def check_intent_def build_verdict_def Let_def)
  then obtain v where v: "r = Inr v" "\<not> allowed v"
    "\<not> list_ex (\<lambda>x. v_severity x = ''critical'') (violations v)" by blast
  from verdict_confidence_rule [OF r[unfolded v(1)]] v(2,3)
  have "confidence v = 1 / 5" by simp
  with r v show ?thesis by auto
qed


subsection \<open>Failure of the model function\<close>

lemma run_policies_eq:
  assumes "Throws Thrown_nullish \<notin> set (outcomes ps act ctx w)"
  shows "run_policies ps act ctx [] [] w =
           (Inr (violations_of ps (outcomes ps act ctx w), entries_of ps (outcomes ps act ctx w)),
            world_after ps act ctx w)"
proof -
  have "fst (run_policies ps act ctx [] [] w) =
          Inr (violations_of ps (outcomes ps act ctx w), entries_of ps (outcomes ps act ctx w))"
    using assms by (simp add: run_policies_fst)
  moreover have "snd (run_policies ps act ctx [] [] w) = world_after ps act ctx w"
    using assms by (rule run_policies_snd)
  ultimately show ?thesis by (simp add: prod_eq_iff)
qed

lemma Sentinel_new_fallback:
  "intentVerifier (Sentinel_new cfg allPolicies) = Some iv \<Longrightarrow> fallbackToHeuristic iv"
proof -
  assume "intentVerifier (Sentinel_new cfg allPolicies) = Some iv"
  then show ?thesis
    by (auto simp: Sentinel_new_def Let_def addPolicy_def IntentVerifier_new_def split: if_splits)
qed

text \<open>
  Claim C2 says that a failure of the model function, with no heuristic fallback, leaves
  \<^verbatim>\<open>verify\<close> as a failure. The intent verifier does propagate it, but
  \<^verbatim>\<open>Sentinel.verify\<close> wraps the call in a handler and returns a verdict.
\<close>

theorem intent_failure_not_propagated_counterexample:
  "IntentVerifier_verify \<lparr> llmFn = Some failing_llm, threshold = 0.5, fallbackToHeuristic = False \<rparr>
     (parseAction demo_raw demo_context) (conversationContext (parseAction demo_raw demo_context)) ()
     = (Inl (Thrown_error ''model down''), ())
   \<and> intentVerifier no_fallback_sentinel
       = Some \<lparr> llmFn = Some failing_llm, threshold = 0.5, fallbackToHeuristic = False \<rparr>
   \<and> fst (verify (''audit-1'', ''t1'') demo_raw demo_context no_fallback_sentinel ()) =
     Inr \<lparr> allowed = True, confidence = 1 / 2, violations = [],
           intent = Some \<lparr> i_confidence = 1 / 2, i_aligned = True, i_method = ''error'',
                           i_reason = ''Intent verification error: model down'',
                           i_matchedKeywords = None, i_totalKeywords = None,
                           i_llmError = None \<rparr>,
           policyResults = [\<lparr> pr_policy = ''first'',
                              pr_result = Some \<lparr> pass = True, reason = ''ok'',
                                                 severity = ''none'' \<rparr> \<rparr>],
           action_summary = \<lparr> s_type = ''system_command'', s_tool = ''exec'',
                              s_args = JObj [(''command'', JStr ''echo hello'')],
                              s_source = ''assistant'' \<rparr> \<rparr>"
  by (simp add: verify_def no_fallback_sentinel_def demo_sentinel_def passing_check_def
      check_intent_def build_verdict_def IntentVerifier_verify_def llmVerify_def failing_llm_def
      parseAction_def demo_raw_def demo_context_def
      classifyAction_def toLowerCase_def toLowerCase_char_def Let_def)

text \<open>
  Claim C2, amended. When the model function rejects with an error and the verifier has
  no heuristic fallback, \<^verbatim>\<open>IntentVerifier.verify\<close> propagates the error to its caller.
  \<^verbatim>\<open>Sentinel.verify\<close> catches it and returns a verdict: the action (without
  violations) is allowed with confidence 0.5, and the intent result has method
  \<open>error\<close> and the reason \<open>Intent verification error:\<close> followed by the message. A
  sentinel built by the constructor always has the fallback on.
\<close>

theorem intent_failure_caught_by_verify:
  assumes "intentVerifier s = Some iv"
    and "llmFn iv = Some f"
    and "\<not> fallbackToHeuristic iv"
    and "Throws Thrown_nullish \<notin> set (outcomes (policies s) (parseAction raw ctx) ctx w)"
    and "violations_of (policies s) (outcomes (policies s) (parseAction raw ctx) ctx w) = []"
    and "f (parseAction raw ctx) (conversationContext (parseAction raw ctx))
           (world_after (policies s) (parseAction raw ctx) ctx w) = (Rejects err, w2)"
    and "message_text err = Some m"
  shows "IntentVerifier_verify iv (parseAction raw ctx) (conversationContext (parseAction raw ctx))
           (world_after (policies s) (parseAction raw ctx) ctx w) = (Inl err, w2)
       \<and> (\<exists>v s'. verify stamp raw ctx s w = (Inr v, s', w2)
                \<and> allowed v \<and> confidence v = 0.5
                \<and> intent v = Some \<lparr> i_confidence = 0.5, i_aligned = True, i_method = ''error'',
                                     i_reason = ''Intent verification error: '' @ m,
                                     i_matchedKeywords = None, i_totalKeywords = None,
                                     i_llmError = None \<rparr>)
       \<and> (\<forall>cfg allPolicies iv'.
             intentVerifier (Sentinel_new cfg allPolicies :: 'a Sentinel) = Some iv'
               \<longrightarrow> fallbackToHeuristic iv')"
proof -
  let ?act = "parseAction raw ctx"
  let ?w1 = "world_after (policies s) ?act ctx w"
  let ?ir = "\<lparr> i_confidence = 0.5, i_aligned = True, i_method = ''error'',
               i_reason = ''Intent verification error: '' @ m,
               i_matchedKeywords = None, i_totalKeywords = None, i_llmError = None \<rparr>"
  have a: "IntentVerifier_verify iv ?act (conversationContext ?act) ?w1 = (Inl err, w2)"
    using assms(2,3,6) by (simp add: IntentVerifier_verify_def llmVerify_def)
  have ci: "check_intent (intentVerifier s) [] ?act ?w1 = (Inr (Some ?ir), w2)"
    using assms(1,7) a by (simp add: check_intent_def)
  have rp: "run_policies (policies s) ?act ctx [] [] w =
              (Inr ([], entries_of (policies s) (outcomes (policies s) ?act ctx w)), ?w1)"
    using run_policies_eq[OF assms(4)] assms(5) by simp
  let ?v = "build_verdict [] (entries_of (policies s) (outcomes (policies s) ?act ctx w))
              (Some ?ir) ?act"
  have "verify stamp raw ctx s w =
          (Inr ?v, s \<lparr> auditLog := snd (AuditLogger_log stamp ?v (auditLog s)) \<rparr>, w2)"
    using rp ci by (simp add: verify_def Let_def)
  moreover have "allowed ?v" "confidence ?v = 0.5" "intent ?v = Some ?ir"
    by (simp_all add: build_verdict_fields)
  ultimately have b: "\<exists>v s'. verify stamp raw ctx s w = (Inr v, s', w2)
                \<and> allowed v \<and> confidence v = 0.5 \<and> intent v = Some ?ir"
    by blast
  have c: "\<forall>cfg allPolicies iv'.
             intentVerifier (Sentinel_new cfg allPolicies :: 'a Sentinel) = Some iv'
               \<longrightarrow> fallbackToHeuristic iv'"
    by (auto dest: Sentinel_new_fallback)
  from a b c show ?thesis by (intro conjI)
qed

theorem intent_failure_caught_by_verify_witness:
  "intentVerifier no_fallback_sentinel
     = Some \<lparr> llmFn = Some failing_llm, threshold = 0.5, fallbackToHeuristic = False \<rparr>
   \<and> violations_of (policies no_fallback_sentinel)
        (outcomes (policies no_fallback_sentinel) (parseAction demo_raw demo_context)
           demo_context ()) = []
   \<and> message_text (Thrown_error ''model down'') = Some ''model down''
   \<and> (\<exists>v s'. verify (''audit-1'', ''t1'') demo_raw demo_context no_fallback_sentinel ()
                = (Inr v, s', ())
            \<and> allowed v \<and> confidence v = 1 / 2)"
proof -
  let ?iv = "\<lparr> llmFn = Some failing_llm, threshold = 0.5, fallbackToHeuristic = False \<rparr>
              :: unit IntentVerifier"
  have 1: "intentVerifier no_fallback_sentinel = Some ?iv"
    by (simp add: no_fallback_sentinel_def demo_sentinel_def)
  have 2: "llmFn ?iv = Some failing_llm" by simp
  have 3: "\<not> fallbackToHeuristic ?iv" by simp
  have o: "outcomes (policies no_fallback_sentinel) (parseAction demo_raw demo_context)
             demo_context () = [Returns \<lparr> pass = True, reason = ''ok'', severity = ''none'' \<rparr>]"
    by (simp add: no_fallback_sentinel_def demo_sentinel_def passing_check_def)
  have 4: "Throws Thrown_nullish \<notin> set (outcomes (policies no_fallback_sentinel)
             (parseAction demo_raw demo_context) demo_context ())"
    unfolding o by simp
  have 5: "violations_of (policies no_fallback_sentinel)
             (outcomes (policies no_fallback_sentinel) (parseAction demo_raw demo_context)
                demo_context ()) = []"
    unfolding o by (simp add: violations_of_def no_fallback_sentinel_def demo_sentinel_def)
  have 6: "failing_llm (parseAction demo_raw demo_context)
             (conversationContext (parseAction demo_raw demo_context))
             (world_after (policies no_fallback_sentinel) (parseAction demo_raw demo_context)
                demo_context ()) = (Rejects (Thrown_error ''model down''), ())"
    by (simp add: failing_llm_def)
  have 7: "message_text (Thrown_error ''model down'') = Some ''model down''" by simp
  from intent_failure_caught_by_verify [OF 1 2 3 4 5 6 7, of "(''audit-1'', ''t1'')"]
  have "\<exists>v s'. verify (''audit-1'', ''t1'') demo_raw demo_context no_fallback_sentinel ()
                = (Inr v, s', ())
            \<and> allowed v \<and> confidence v = 1 / 2"
    by auto
  with 1 5 7 show ?thesis by (intro conjI)
qed

subsection \<open>Dangerous system commands\<close>

lemma write_raw_parsed:
  "parseAction write_raw demo_context =
     \<lparr> type = ''file_operation'', tool = ''write'',
       args = JObj [(''path'', JStr ''cleanup.sh''), (''content'', JStr ''rm -rf /'')],
       source = ''assistant'', conversationContext = [],
       metadata = \<lparr> fullText = ''cleanup.sh rm -rf /'',
                    allStrings = [''cleanup.sh'', ''rm -rf /''] \<rparr> \<rparr>"
  by code_simp

text \<open>
  Claim C6. The evaluator is to restrict its scan to actions of type
  \<^verbatim>\<open>system_command\<close> or \<^verbatim>\<open>tool_call\<close>: an action of another type passes whatever
  its flattened text is. The code tests the type, under the comment
  \<^verbatim>\<open>Only check system-relevant actions\<close>, but returns early only when the text is
  empty too; an action of another type that carries text falls through to the pattern
  tables. A \<^verbatim>\<open>write\<close> call is a \<^verbatim>\<open>file_operation\<close>; with a destructive command in
  its content it does not pass: it is rejected as critical.
\<close>

theorem system_commands_rejects_file_operation:
  "type (parseAction write_raw demo_context) = ''file_operation''
   \<and> systemCommands (parseAction write_raw demo_context) demo_context =
       \<lparr> pass = False,
         reason = ''Destructive command: matches /rm'' @ bs ''s+(-[a-z]*f[a-z]*''
                  @ bs ''s+)?(-[a-z]*r[a-z]*'' @ bs ''s+)?'' @ bs ''//i'',
         severity = ''critical'' \<rparr>"
  by code_simp


lemma scan_empty_text: "scan_groups allChecks [] = None"
  by code_simp

lemma scan_groups_fails: "scan_groups gs text = Some r \<Longrightarrow> \<not> pass r"
  by (induction gs) (auto split: option.splits)

lemma systemCommands_pass:
  "pass (systemCommands act ctx) = (scan_groups allChecks (fullText (metadata act)) = None)"
proof (cases "fullText (metadata act) = []")
  case True
  then show ?thesis
    by (simp add: systemCommands_def Let_def scan_empty_text)
next
  case False
  then show ?thesis
    by (auto simp: systemCommands_def Let_def split: option.splits dest: scan_groups_fails)
qed

text \<open>
  The general shape of the evaluator. An action whose type is neither
  \<^verbatim>\<open>system_command\<close> nor \<^verbatim>\<open>tool_call\<close> and whose flattened text is empty passes,
  with the reason \<open>Not a system command\<close>. An action with non-empty flattened text is
  scanned whatever its type: the result depends on the text alone. In all cases the
  evaluator passes exactly when no pattern of its tables matches the flattened text.
\<close>

lemma systemCommands_early_return_needs_empty_text:
  "(type act \<noteq> ''system_command'' \<and> type act \<noteq> ''tool_call'' \<and> fullText (metadata act) = []
      \<longrightarrow> systemCommands act ctx =
            \<lparr> pass = True, reason = ''Not a system command'', severity = ''none'' \<rparr>)
   \<and> (fullText (metadata act) \<noteq> [] \<and> fullText (metadata act') = fullText (metadata act)
      \<longrightarrow> systemCommands act' ctx' = systemCommands act ctx)
   \<and> pass (systemCommands act ctx) = (scan_groups allChecks (fullText (metadata act)) = None)"
proof -
  have a: "type act \<noteq> ''system_command'' \<and> type act \<noteq> ''tool_call'' \<and> fullText (metadata act) = []
      \<longrightarrow> systemCommands act ctx =
            \<lparr> pass = True, reason = ''Not a system command'', severity = ''none'' \<rparr>"
    by (simp add: systemCommands_def)
  have b: "fullText (metadata act) \<noteq> [] \<and> fullText (metadata act') = fullText (metadata act)
      \<longrightarrow> systemCommands act' ctx' = systemCommands act ctx"
    by (simp add: systemCommands_def)
  from a b systemCommands_pass[of act ctx] show ?thesis by (intro conjI)
qed

end
